theory Spec2Isabelle
  imports Complex_Main
begin

section \<open>Tensors, errors and execution modes\<close>

text \<open>
  The model class \<open>TimeNet\<close> of \<open>neuralprophet/time_net.py\<close> works on torch tensors.
  A tensor of dims (batch, time, channel) is a list of batch rows, each a list of time
  steps, each a list of channel values; a tensor of dims (batch, time) is a list of
  lists.  Values are real numbers: rounding, infinities and NaN of the float type are
  outside this development, and so is the gradient graph (\<open>detach\<close> keeps the value).

  Every place where the source raises is a branch returning \<open>Inl\<close> of the error.
\<close>

datatype error =
  IndexError | RuntimeError | ValueError | AttributeError | TypeError | KeyError
  | ZeroDivisionError

type_synonym row = "real list"
type_synonym matrix = "real list list"
type_synonym tensor = "real list list list"

text \<open>The operation mode of \<open>forward\<close>: one of the strings "train", "val", "test", "predict".\<close>

datatype mode = Train | Val | Test | Predict

text \<open>\<open>forward\<close> calls the reconciliation with \<open>predict_mode = (mode != "train")\<close>.\<close>

definition predict_mode_of :: "mode \<Rightarrow> bool" where
  "predict_mode_of md = (md \<noteq> Train)"

definition detach :: "'a \<Rightarrow> 'a" where
  "detach x = x"

text \<open>All rows of a tensor have the dims (T, Q), and there are B of them.\<close>

definition has_shape :: "nat \<Rightarrow> nat \<Rightarrow> nat \<Rightarrow> tensor \<Rightarrow> bool" where
  "has_shape B T Q x =
     (length x = B \<and> list_all (\<lambda>r. length r = T \<and> list_all (\<lambda>c. length c = Q) r) x)"

text \<open>The first error of a list of results, or all the values.\<close>

fun collect :: "(error + 'a) list \<Rightarrow> error + 'a list" where
  "collect [] = Inr []"
| "collect (Inl e # rs) = Inl e"
| "collect (Inr v # rs) = (case collect rs of Inl e \<Rightarrow> Inl e | Inr vs \<Rightarrow> Inr (v # vs))"

section \<open>Quantile reconciliation\<close>

text \<open>
  \<open>_compute_quantile_forecasts_from_diffs\<close>.  The index of the first quantile above 0.5,
  or the number of quantiles when there is none.
\<close>

definition quantiles_divider_index :: "real list \<Rightarrow> nat" where
  "quantiles_divider_index qs =
     (if list_ex (\<lambda>quantile. quantile > 1/2) qs
      then length (takeWhile (\<lambda>quantile. \<not> quantile > 1/2) qs)
      else length qs)"

text \<open>
  The crossing correction of the upper quantiles.  \<open>upper_quantile_diffs\<close> is the slice
  \<open>diffs[:, :, d:]\<close>, a view: an assignment to its index \<open>i\<close> writes channel \<open>d + i\<close> of
  \<open>diffs\<close> itself.  The state threaded through the loop is the channel list of \<open>diffs\<close>
  at one (batch, horizon) position.
\<close>

definition clamp_upper :: "nat \<Rightarrow> nat \<Rightarrow> row \<Rightarrow> row" where
  "clamp_upper d n_upper ds =
     fold (\<lambda>i ds. ds[d + (i + 1) := max (ds ! (d + (i + 1))) (ds ! (d + i))])
          [0 ..< n_upper - 1]
          (ds[d := max 0 (ds ! d)])"

text \<open>
  The correction of the lower quantiles.  \<open>lower_quantile_diffs\<close> is the view
  \<open>diffs[:, :, 1:d]\<close> of \<open>n_lower = d - 1\<close> channels: its index \<open>i\<close> is channel \<open>1 + i\<close>
  of \<open>diffs\<close>, its index \<open>-1\<close> is channel \<open>n_lower\<close>.  The loop runs over
  \<open>range(n_lower - 1, 0, -1)\<close>.
\<close>

definition clamp_lower :: "nat \<Rightarrow> row \<Rightarrow> row" where
  "clamp_lower n_lower ds =
     fold (\<lambda>i ds. ds[1 + (i - 1) := max (ds ! (1 + (i - 1))) (ds ! (1 + i))])
          (rev [1 ..< n_lower])
          (ds[n_lower := max 0 (ds ! n_lower)])"

text \<open>
  The body of the function at one (batch, horizon) position, for more than one quantile.
  The argument \<open>dfs\<close> holds the channels of \<open>diffs\<close>; the result is the pair of the
  channels of \<open>out\<close> and the channels of \<open>diffs\<close> as the call leaves them.  With \<open>L\<close>
  channels in \<open>diffs\<close>:
  \<^item> \<open>L = 0\<close>: \<open>diffs[:, :, 0]\<close> raises IndexError;
  \<^item> \<open>L < d\<close>: there is no upper slice and the lower view is shorter than \<open>n_lower\<close>.  In
    predict mode an index of the view is out of range (IndexError); in train mode the sum
    with the repeated median does not broadcast (RuntimeError), except for \<open>L = 1\<close> and
    \<open>d = 2\<close> where both sides of the assignment are empty;
  \<^item> otherwise the slices have \<open>n_upper\<close> and \<open>n_lower\<close> channels and nothing raises.
\<close>

definition quantile_forecasts_row :: "real list \<Rightarrow> bool \<Rightarrow> row \<Rightarrow> error + (row \<times> row)" where
  "quantile_forecasts_row qs predict_mode dfs =
     (let d = quantiles_divider_index qs;
          L = length dfs;
          n_upper = L - d;
          n_lower = d - 1;
          out0 = (replicate L 0)[0 := dfs ! 0]
      in if L = 0 then Inl IndexError
         else if L < d then
           (if predict_mode then Inl IndexError
            else if L = 1 \<and> d = 2 then Inr (out0, dfs)
            else Inl RuntimeError)
         else
           let dfs1 = (if n_upper > 0 \<and> predict_mode then clamp_upper d n_upper dfs else dfs);
               out1 = (if n_upper > 0
                       then take d out0 @ map (\<lambda>x. x + detach (dfs1 ! 0)) (drop d dfs1)
                       else out0);
               dfs2 = (if n_lower > 0 \<and> predict_mode then clamp_lower n_lower dfs1 else dfs1);
               out2 = (if n_lower > 0
                       then take 1 out1
                            @ map (\<lambda>x. - x + detach (dfs2 ! 0)) (take n_lower (drop 1 dfs2))
                            @ drop d out1
                       else out1)
           in Inr (out2, dfs2))"

text \<open>
  The function on the whole tensor: the output tensor and the input tensor after the
  call.  With at most one quantile the input itself is returned.
\<close>

definition compute_quantile_forecasts_from_diffs ::
  "real list \<Rightarrow> tensor \<Rightarrow> bool \<Rightarrow> error + (tensor \<times> tensor)" where
  "compute_quantile_forecasts_from_diffs qs dfs predict_mode =
     (if length qs \<le> 1 then Inr (dfs, dfs)
      else case collect (map (\<lambda>b. collect (map (quantile_forecasts_row qs predict_mode) b)) dfs) of
             Inl e \<Rightarrow> Inl e
           | Inr rs \<Rightarrow> Inr (map (map fst) rs, map (map snd) rs))"

subsection \<open>The reconciliation as the specification words it\<close>

text \<open>
  The specification describes the crossing correction as a forward running maximum over
  consecutive offsets, started at 0, for the upper quantiles, and as the same in reverse
  index order for the lower quantiles; the offsets are then added to the median (upper)
  or subtracted from it (lower).  These definitions follow that wording; the lemmas below
  compare them with the loops of the source.
\<close>

fun spec_running_max :: "real \<Rightarrow> real list \<Rightarrow> real list" where
  "spec_running_max a [] = []"
| "spec_running_max a (x # xs) = max a x # spec_running_max (max a x) xs"

definition spec_clamped_offsets :: "nat \<Rightarrow> row \<Rightarrow> row" where
  "spec_clamped_offsets d r =
     r ! 0 # rev (spec_running_max 0 (rev (take (d - 1) (drop 1 r)))) @ spec_running_max 0 (drop d r)"

definition spec_absolute_quantiles :: "nat \<Rightarrow> row \<Rightarrow> row" where
  "spec_absolute_quantiles d r =
     r ! 0 # map (\<lambda>x. - x + r ! 0) (take (d - 1) (drop 1 r)) @ map (\<lambda>x. x + r ! 0) (drop d r)"

text \<open>The output and the final input at one position, in either mode.\<close>

definition spec_row_result :: "real list \<Rightarrow> bool \<Rightarrow> row \<Rightarrow> row \<times> row" where
  "spec_row_result qs pm r =
     (let d = quantiles_divider_index qs;
          c = (if pm then spec_clamped_offsets d r else r)
      in (spec_absolute_quantiles d c, c))"

text \<open>
  The layout of the quantile list that the function relies on: index 0 holds the median
  0.5 (\<open>out[:, :, 0] = diffs[:, :, 0]  # set the median where 0 is the median quantile
  index\<close>), and the other quantiles follow in ascending order, so that the indices
  \<open>1 ..< d\<close> are the quantiles below the median and the indices from \<open>d\<close> on those above.
\<close>

definition quantiles_configured :: "real list \<Rightarrow> bool" where
  "quantiles_configured qs = (qs \<noteq> [] \<and> hd qs = 1/2 \<and> sorted (tl qs))"

text \<open>
  Values that do not cross: a channel of a smaller quantile never holds a larger value
  than a channel of a larger quantile.
\<close>

definition non_crossing :: "real list \<Rightarrow> row \<Rightarrow> bool" where
  "non_crossing qs r = (\<forall>i<length qs. \<forall>j<length qs. qs ! i < qs ! j \<longrightarrow> r ! i \<le> r ! j)"

section \<open>Configuration and construction\<close>

text \<open>
  The configuration objects that \<open>TimeNet\<close> reads, with the attributes it reads.  An
  attribute that may be \<open>None\<close> is an option.  \<open>trend_local_reg\<close> and
  \<open>seasonality_local_reg\<close> hold a number or a boolean (\<open>False\<close> is 0, \<open>True\<close> is 1) or
  \<open>None\<close>; a condition on such a value is Python truthiness.
\<close>

record config_trend =
  trend_reg :: "real option"
  n_changepoints :: nat
  trend_global_local :: string
  trend_local_reg :: "real option"

record config_seasonality =
  season_mode :: string
  season_periods :: "string list"
  season_reg_lambda :: "real option"
  season_global_local :: string
  seasonality_local_reg :: "real option"

record config_ar =
  ar_reg_lambda :: "real option"

record config_train =
  newer_samples_weight :: real
  newer_samples_start :: real
  epochs :: nat
  get_reg_delay_weight :: "real \<Rightarrow> real"
  loss_func_elementwise :: "tensor \<Rightarrow> tensor \<Rightarrow> tensor"

definition truthy :: "real option \<Rightarrow> bool" where
  "truthy v = (case v of None \<Rightarrow> False | Some x \<Rightarrow> x \<noteq> 0)"

text \<open>
  One entry of \<open>events_dims\<close>, the ordered dictionary that \<open>config_events_to_model_dims\<close>
  builds from the event and holiday configurations: the mode string and the parameter
  indices of the event.
\<close>

record event_dims =
  event_mode :: string
  event_indices :: "nat list"

text \<open>
  The arguments of \<open>TimeNet.__init__\<close> that it reads itself.  An argument declared
  \<open>Optional\<close> is an option; \<open>config_seasonality\<close> is one too, since the constructor tests
  it against \<open>None\<close>.  \<open>arg_metrics\<close> is the dictionary \<open>metrics\<close>, each key with the name
  of the torchmetrics class of its entry.  \<open>arg_regressors_configured\<close> is \<open>None\<close> when
  \<open>config_regressors\<close> is, and else tells whether \<open>config_regressors.regressors\<close> is not
  \<open>None\<close>.  \<open>arg_events_dims\<close> is the value of
  \<open>config_events_to_model_dims(config_events, config_holidays)\<close>.  Of
  \<open>config_lagged_regressors\<close> the constructor reads whether \<open>regressors\<close> is not \<open>None\<close>
  and then iterates over \<open>layers\<close>.

  Outside the model: the required arguments \<open>config_model\<close>, \<open>n_forecasts\<close>, \<open>n_lags\<close> and
  \<open>id_list\<close> and the attributes of the configuration objects have their declared types,
  and the calls on collaborators return (\<open>save_hyperparameters\<close>,
  \<open>check_for_regularization\<close>, the constructors of the metrics once their class is
  found, \<open>get_trend\<close>, \<open>get_seasonality\<close>, \<open>get_future_regressors\<close>,
  \<open>config_events_to_model_dims\<close>, \<open>init_parameter\<close>, the layers of the two networks).
\<close>

record config_lagged_regressors =
  lagged_regressors_present :: bool
  lagged_layers :: "nat list option"

record init_args =
  arg_config_seasonality :: "config_seasonality option"
  arg_config_train :: "config_train option"
  arg_config_trend :: "config_trend option"
  arg_regressors_configured :: "bool option"
  arg_events_dims :: "(string \<times> event_dims) list option"
  arg_n_lags :: nat
  arg_ar_layers :: "nat list option"
  arg_metrics :: "(string \<times> string) list option"
  arg_config_lagged_regressors :: "config_lagged_regressors option"

text \<open>
  What the constructor leaves for the events: \<open>events_dims\<close> with the modes it has
  coerced, the sizes of the two parameter blocks, and the messages it has logged.
\<close>

record init_result =
  res_events_dims :: "(string \<times> event_dims) list option"
  n_additive_event_params :: nat
  n_multiplicative_event_params :: nat
  logged :: "string list"

text \<open>The message logged for an event of an unrecognized mode.\<close>

definition event_mode_message :: "string \<Rightarrow> string" where
  "event_mode_message md = ''Event Mode '' @ md @ '' not implemented. Defaulting to 'additive'.''"

text \<open>
  The loop over \<open>events_dims.items()\<close>.  The state is the entries already visited, the
  two counters and the log; \<open>configs\<close> is the dictionary stored in \<open>events_dims\<close>, so the
  coerced mode is the one the following tests read.
\<close>

fun events_loop ::
  "bool \<Rightarrow> (string \<times> event_dims) list \<Rightarrow> (string \<times> event_dims) list \<times> nat \<times> nat \<times> string list
    \<Rightarrow> error + ((string \<times> event_dims) list \<times> nat \<times> nat \<times> string list)" where
  "events_loop trend_is_none [] st = Inr st"
| "events_loop trend_is_none ((event, configs) # rest) (seen, n_add, n_mul, lg) =
     (let unknown = (event_mode configs \<notin> set [''additive'', ''multiplicative'']);
          lg1 = (if unknown
                 then lg @ [event_mode_message (event_mode configs)]
                 else lg);
          configs1 = (if unknown then configs\<lparr>event_mode := ''additive''\<rparr> else configs)
      in if event_mode configs1 = ''additive''
         then events_loop trend_is_none rest
                (seen @ [(event, configs1)], n_add + length (event_indices configs1), n_mul, lg1)
         else if event_mode configs1 = ''multiplicative''
         then (if trend_is_none then Inl ValueError
               else events_loop trend_is_none rest
                      (seen @ [(event, configs1)], n_add, n_mul + length (event_indices configs1), lg1))
         else events_loop trend_is_none rest (seen @ [(event, configs1)], n_add, n_mul, lg1))"

text \<open>
  The metrics block: \<open>bool(metrics)\<close> is false for \<open>None\<close> and for the empty dictionary;
  otherwise every class name is looked up in \<open>torchmetrics.__dict__\<close>, whose keys are
  the parameter \<open>tm\<close>, and a name that is not there raises KeyError.
\<close>

definition metrics_lookup_fails :: "string list \<Rightarrow> init_args \<Rightarrow> bool" where
  "metrics_lookup_fails tm a =
     (case arg_metrics a of
        None \<Rightarrow> False
      | Some ms \<Rightarrow> list_ex (\<lambda>(metric, class_name). class_name \<notin> set tm) ms)"

text \<open>
  \<open>TimeNet.__init__\<close>, in the order of the source: the read of
  \<open>self.config_train.learning_rate\<close>, the metrics block, the two seasonality checks, the
  events loop, the iteration over \<open>self.ar_layers\<close> when there are lags, the iteration
  over \<open>self.config_lagged_regressors.layers\<close> when there are lagged regressors, and the
  read of \<open>self.config_regressors.regressors\<close>.  A read of an attribute of \<open>None\<close> raises
  AttributeError, an iteration over \<open>None\<close> TypeError.
\<close>

definition init :: "string list \<Rightarrow> init_args \<Rightarrow> error + init_result" where
  "init tm a =
     (case arg_config_train a of
        None \<Rightarrow> Inl AttributeError
      | Some _ \<Rightarrow>
          if metrics_lookup_fails tm a then Inl KeyError
          else if (case arg_config_seasonality a of
                None \<Rightarrow> False
              | Some cs \<Rightarrow> season_mode cs = ''multiplicative'' \<and> arg_config_trend a = None)
          then Inl ValueError
          else if (case arg_config_seasonality a of
                None \<Rightarrow> False
              | Some cs \<Rightarrow> season_mode cs \<notin> set [''additive'', ''multiplicative''])
          then Inl ValueError
          else
            case (case arg_events_dims a of
                    None \<Rightarrow> Inr (None, 0, 0, [])
                  | Some dims \<Rightarrow>
                      (case events_loop (arg_config_trend a = None) dims ([], 0, 0, []) of
                         Inl e \<Rightarrow> Inl e
                       | Inr (dims1, n_add, n_mul, lg) \<Rightarrow> Inr (Some dims1, n_add, n_mul, lg))) of
              Inl e \<Rightarrow> Inl e
            | Inr (dims1, n_add, n_mul, lg) \<Rightarrow>
                if arg_n_lags a > 0 \<and> arg_ar_layers a = None then Inl TypeError
                else if (case arg_config_lagged_regressors a of
                           None \<Rightarrow> False
                         | Some lr \<Rightarrow> lagged_regressors_present lr \<and> lagged_layers lr = None)
                then Inl TypeError
                else
                  (case arg_regressors_configured a of
                     None \<Rightarrow> Inl AttributeError
                   | Some _ \<Rightarrow>
                       Inr \<lparr>res_events_dims = dims1, n_additive_event_params = n_add,
                            n_multiplicative_event_params = n_mul, logged = lg\<rparr>))"

section \<open>Loss and regularization\<close>

text \<open>
  \<open>_get_time_based_sample_weight\<close> at one time value, then on the tensor \<open>t\<close> of dims
  (batch, horizon); the result has a last dimension of size 1 (\<open>unsqueeze(dim=2)\<close>).
  \<open>torch.clamp(x, 0, 1)\<close> is \<open>min(max(x, 0), 1)\<close>.  A division by zero of the float type
  (for \<open>newer_samples_start = 1\<close> or \<open>newer_samples_weight = 0\<close>) gives an infinity or
  NaN there and is outside this development.
\<close>

definition time_based_sample_weight :: "real \<Rightarrow> real \<Rightarrow> real \<Rightarrow> real" where
  "time_based_sample_weight end_w start_t t =
     (let time0 = (detach t - start_t) / (1 - start_t);
          time1 = min (max time0 0) 1;
          time2 = pi * (time1 - 1);
          time3 = 1/2 * cos time2 + 1/2
      in (1 + time3 * (end_w - 1)) / end_w)"

definition get_time_based_sample_weight :: "config_train \<Rightarrow> matrix \<Rightarrow> tensor" where
  "get_time_based_sample_weight ct t =
     map (map (\<lambda>x. [time_based_sample_weight (newer_samples_weight ct) (newer_samples_start ct) x])) t"

text \<open>
  Elementwise operations.  Two dimensions are compatible when their sizes are equal or
  one of them is 1, which is then repeated (broadcasting); otherwise torch raises a
  RuntimeError.  An in-place operation (\<open>+=\<close>) keeps the dims of its left operand, so only
  the right operand may be repeated.
\<close>

definition bc :: "('a \<Rightarrow> 'b \<Rightarrow> error + 'c) \<Rightarrow> 'a list \<Rightarrow> 'b list \<Rightarrow> error + 'c list" where
  "bc f xs ys =
     (if length xs = length ys then collect (map2 f xs ys)
      else if length ys = 1 then collect (map (\<lambda>x. f x (hd ys)) xs)
      else if length xs = 1 then collect (map (\<lambda>y. f (hd xs) y) ys)
      else Inl RuntimeError)"

definition bc_inplace :: "('a \<Rightarrow> 'b \<Rightarrow> error + 'a) \<Rightarrow> 'a list \<Rightarrow> 'b list \<Rightarrow> error + 'a list" where
  "bc_inplace f xs ys =
     (if length xs = length ys then collect (map2 f xs ys)
      else if length ys = 1 then collect (map (\<lambda>x. f x (hd ys)) xs)
      else Inl RuntimeError)"

definition tensor_op :: "(real \<Rightarrow> real \<Rightarrow> real) \<Rightarrow> tensor \<Rightarrow> tensor \<Rightarrow> error + tensor" where
  "tensor_op f = bc (bc (bc (\<lambda>a b. Inr (f a b))))"

definition matrix_op :: "(real \<Rightarrow> real \<Rightarrow> real) \<Rightarrow> matrix \<Rightarrow> matrix \<Rightarrow> error + matrix" where
  "matrix_op f = bc (bc (\<lambda>a b. Inr (f a b)))"

definition tensor_iadd :: "tensor \<Rightarrow> tensor \<Rightarrow> error + tensor" where
  "tensor_iadd = bc_inplace (bc_inplace (bc_inplace (\<lambda>a b. Inr (a + b))))"

text \<open>\<open>x.sum(dim=2).mean()\<close>; the mean of no element is NaN and outside this development.\<close>

definition sum_dim2_mean :: "tensor \<Rightarrow> real" where
  "sum_dim2_mean x = sum_list (concat (map (map sum_list) x)) / real (length (concat x))"

text \<open>
  The values of the regularization functions on the current parameters.  The functions
  (\<open>config_ar.regularize\<close>, \<open>reg_func_trend\<close>, \<open>reg_func_season\<close>, \<open>reg_func_events\<close>,
  \<open>reg_func_regressors\<close>, \<open>reg_func_trend_glocal\<close>, \<open>reg_func_seasonality_glocal\<close>) are
  collaborators; \<open>val_reg_season\<close> has one value for each key of
  \<open>self.seasonality.season_params\<close>.
\<close>

text \<open>
  The normalization configuration that \<open>denormalize\<close> reads.  \<open>global_data_params_y\<close> is
  the pair of \<open>shift\<close> and \<open>scale\<close> of the entry \<open>global_data_params["y"]\<close>, or \<open>None\<close>
  when there is no such entry.
\<close>

record config_normalization =
  global_normalization :: bool
  normalize :: string
  global_data_params_y :: "(real \<times> real) option"

record reg_values =
  val_ar_regularize :: matrix
  val_reg_trend :: real
  val_reg_season :: "(string \<times> real) list"
  val_reg_events :: real
  val_reg_regressors :: real
  val_reg_trend_glocal :: real
  val_reg_seasonality_glocal :: real

text \<open>
  The attributes of a constructed model that the forward pass, the loss and the training
  step read.  \<open>events_dims_present\<close> is \<open>self.events_dims is not None\<close>,
  \<open>events_or_holidays_configured\<close> is \<open>self.config_events is not None or
  self.config_holidays is not None\<close>, \<open>regressors_configured\<close> is
  \<open>self.config_regressors.regressors is not None\<close>, \<open>lagged_regressors_configured\<close> is
  \<open>self.config_lagged_regressors and self.config_lagged_regressors.regressors is not None\<close>,
  \<open>season_dims_present\<close> is \<open>self.seasonality.season_dims is not None\<close>.  \<open>ar_net\<close> is
  the network \<open>self.ar_net\<close>, an attribute that exists when \<open>has_ar_net\<close> holds; the two
  event parameter blocks have dims (quantiles, features).  A configuration object is
  true in a condition when it is not \<open>None\<close>.
\<close>

record timenet =
  quantiles :: "real list"
  n_forecasts :: nat
  max_lags :: nat
  n_lags :: nat
  cfg_trend :: "config_trend option"
  cfg_seasonality :: "config_seasonality option"
  cfg_ar :: "config_ar option"
  cfg_train :: config_train
  events_or_holidays_configured :: bool
  regressors_configured :: bool
  season_dims_present :: bool
  has_ar_net :: bool
  reg_enabled :: bool
  finding_lr :: bool
  metrics_enabled :: bool
  train_steps_per_epoch :: nat
  events_dims_present :: bool
  event_params_additive :: matrix
  event_params_multiplicative :: matrix
  lagged_regressors_configured :: bool
  ar_net :: "matrix \<Rightarrow> matrix"
  cfg_normalization :: "config_normalization option"
  meta_used_in_model :: bool
  id_list :: "string list"

text \<open>
  The terms that \<open>_add_batch_regularizations\<close> adds to \<open>reg_loss\<close>, named after the
  statement that adds them.
\<close>

datatype reg_term =
  RegAR | RegTrend | RegSeason string | RegEvents | RegRegressors | TrendGlocal | SeasonalityGlocal

text \<open>
  The block under \<open>if delay_weight > 0\<close>: the list of the terms added, each with its
  value, in the order of the source.  \<open>self.ar_weights\<close> reads \<open>self.ar_net\<close>, which exists
  only when \<open>n_lags > 0\<close>.
\<close>

definition delayed_terms :: "timenet \<Rightarrow> reg_values \<Rightarrow> error + (reg_term \<times> real) list" where
  "delayed_terms m rv =
     (case (if max_lags m > 0
            then (case cfg_ar m of
                    None \<Rightarrow> Inl AttributeError
                  | Some ca \<Rightarrow>
                      (case ar_reg_lambda ca of
                         None \<Rightarrow> Inr []
                       | Some l \<Rightarrow>
                           if has_ar_net m
                           then Inr [(RegAR, l * (sum_list (concat (val_ar_regularize rv)) / real (n_forecasts m)))]
                           else Inl AttributeError))
            else Inr []) of
        Inl e \<Rightarrow> Inl e
      | Inr t_ar \<Rightarrow>
          (case cfg_trend m of
             None \<Rightarrow> Inl AttributeError
           | Some ct \<Rightarrow>
               let t_trend =
                     (case trend_reg ct of
                        None \<Rightarrow> []
                      | Some l_trend \<Rightarrow>
                          if n_changepoints ct > 0 \<and> l_trend > 0
                          then [(RegTrend, l_trend * val_reg_trend rv)] else []);
                   t_season =
                     (case cfg_seasonality m of
                        None \<Rightarrow> []
                      | Some cs \<Rightarrow>
                          (case season_reg_lambda cs of
                             None \<Rightarrow> []
                           | Some l_season \<Rightarrow>
                               if season_dims_present m \<and> l_season > 0
                               then map (\<lambda>(name, v). (RegSeason name, l_season * v)) (val_reg_season rv)
                               else []));
                   t_events = (if events_or_holidays_configured m
                               then [(RegEvents, val_reg_events rv)] else []);
                   t_regressors = (if regressors_configured m
                                   then [(RegRegressors, val_reg_regressors rv)] else [])
               in Inr (t_ar @ t_trend @ t_season @ t_events @ t_regressors)))"

text \<open>The two blocks after it, which no test of \<open>delay_weight\<close> guards.\<close>

definition glocal_terms :: "timenet \<Rightarrow> reg_values \<Rightarrow> (reg_term \<times> real) list" where
  "glocal_terms m rv =
     (case cfg_trend m of
        None \<Rightarrow> []
      | Some ct \<Rightarrow>
          if trend_global_local ct = ''local'' \<and> truthy (trend_local_reg ct)
          then [(TrendGlocal, val_reg_trend_glocal rv)] else [])
     @ (case cfg_seasonality m of
          None \<Rightarrow> []
        | Some cs \<Rightarrow>
            if season_global_local cs \<in> set [''local'', ''glocal''] \<and> truthy (seasonality_local_reg cs)
            then [(SeasonalityGlocal, val_reg_seasonality_glocal rv)] else [])"

text \<open>
  \<open>_add_batch_regularizations(loss, progress)\<close>: the pair \<open>(loss, reg_loss)\<close> it returns,
  and the terms it has added to \<open>reg_loss\<close>, which starts at zero.
\<close>

definition add_batch_regularizations ::
  "timenet \<Rightarrow> reg_values \<Rightarrow> real \<Rightarrow> real \<Rightarrow> error + (real \<times> real \<times> (reg_term \<times> real) list)" where
  "add_batch_regularizations m rv loss progress =
     (let delay_weight = get_reg_delay_weight (cfg_train m) progress
      in case (if delay_weight > 0 then delayed_terms m rv else Inr []) of
           Inl e \<Rightarrow> Inl e
         | Inr ts \<Rightarrow>
             let terms = ts @ glocal_terms m rv;
                 reg_loss = 0 + sum_list (map snd terms)
             in Inr (loss + reg_loss, reg_loss, terms))"

text \<open>
  \<open>loss_func(time, predicted, targets)\<close>.  \<open>self.train_progress\<close> is an attribute that
  only \<open>training_step\<close> sets; it is \<open>None\<close> here while it does not exist.
\<close>

definition weighted_loss :: "timenet \<Rightarrow> matrix \<Rightarrow> tensor \<Rightarrow> error + tensor" where
  "weighted_loss m time loss =
     (if newer_samples_weight (cfg_train m) > 1
      then tensor_op (*) loss (get_time_based_sample_weight (cfg_train m) (map (drop (n_lags m)) time))
      else Inr loss)"

definition loss_func ::
  "timenet \<Rightarrow> reg_values \<Rightarrow> real option \<Rightarrow> matrix \<Rightarrow> tensor \<Rightarrow> tensor \<Rightarrow> error + (real \<times> real)" where
  "loss_func m rv train_progress time predicted targets =
     (case weighted_loss m time (loss_func_elementwise (cfg_train m) predicted targets) of
        Inl e \<Rightarrow> Inl e
      | Inr loss_w \<Rightarrow>
          let loss = sum_dim2_mean loss_w
          in if reg_enabled m \<and> \<not> finding_lr m
             then (case train_progress of
                     None \<Rightarrow> Inl AttributeError
                   | Some progress \<Rightarrow>
                       (case add_batch_regularizations m rv loss progress of
                          Inl e \<Rightarrow> Inl e
                        | Inr (loss1, reg_loss, terms) \<Rightarrow> Inr (loss1, reg_loss)))
             else Inr (loss, 0))"

section \<open>Forward pass\<close>

definition bind_err :: "error + 'a \<Rightarrow> ('a \<Rightarrow> error + 'b) \<Rightarrow> error + 'b" where
  "bind_err r f = (case r of Inl e \<Rightarrow> Inl e | Inr v \<Rightarrow> f v)"

text \<open>
  What the forward pass receives from its collaborators for one batch: the blocks that
  the components stacker unpacks from the input tensor, and the outputs of the trend,
  seasonality, future-regressor and covariate sub-models on their blocks.  A block whose
  name is not in \<open>feature_indices\<close> is \<open>None\<close>.  \<open>time_input\<close> has dims (batch, window);
  the outputs of the sub-models that are summed over the window have dims (batch,
  window, quantiles); \<open>covar_net_out\<close> is \<open>self.covar_net(x)\<close>, of dims (batch, forecasts
  times quantiles).  The series identity \<open>meta\<close> only reaches the sub-models.
\<close>

record forward_env =
  time_input :: matrix
  trend_out :: tensor
  seasonality_out :: tensor
  additive_events_input :: "tensor option"
  multiplicative_events_input :: "tensor option"
  additive_regressors_out :: "tensor option"
  multiplicative_regressors_out :: "tensor option"
  lags_input :: "matrix option"
  covar_net_out :: matrix

definition zeros :: "nat \<Rightarrow> nat \<Rightarrow> nat \<Rightarrow> tensor" where
  "zeros B T Q = replicate B (replicate T (replicate Q 0))"

text \<open>\<open>time_input.shape[1]\<close>.\<close>

definition window_length :: "matrix \<Rightarrow> nat" where
  "window_length t = (case t of [] \<Rightarrow> 0 | r # _ \<Rightarrow> length r)"

text \<open>
  \<open>scalar_features_effects(features, params)\<close>, as \<open>forward\<close> calls it (without
  \<open>indices\<close>): at every position and for every quantile, the sum over the features of
  feature times parameter.
\<close>

definition scalar_features_effects :: "tensor \<Rightarrow> matrix \<Rightarrow> error + tensor" where
  "scalar_features_effects features params =
     collect (map (\<lambda>b. collect (map (\<lambda>feat.
        collect (map (\<lambda>p. bind_err (bc (\<lambda>x y. Inr (x * y)) feat p) (\<lambda>prod. Inr (sum_list prod))) params)) b))
       features)"

text \<open>\<open>x.view(x.shape[0], n_forecasts, len(quantiles))\<close> of a tensor of dims (batch, n).\<close>

fun chunks :: "nat \<Rightarrow> nat \<Rightarrow> 'a list \<Rightarrow> 'a list list" where
  "chunks n 0 xs = []"
| "chunks n (Suc k) xs = take n xs # chunks n k (drop n xs)"

definition view3 :: "nat \<Rightarrow> nat \<Rightarrow> matrix \<Rightarrow> error + tensor" where
  "view3 T Q x =
     (if list_all (\<lambda>r. length r = T * Q) x then Inr (map (chunks Q T) x) else Inl RuntimeError)"

text \<open>
  The two accumulators over the whole window, after the seasonality, the events and the
  future regressors.
\<close>

definition nonstationary_accumulators :: "timenet \<Rightarrow> forward_env \<Rightarrow> error + (tensor \<times> tensor)" where
  "nonstationary_accumulators m env =
     (let B = length (time_input env);
          T = window_length (time_input env);
          Q = length (quantiles m);
          acc0 = (zeros B T Q, zeros B T Q)
      in bind_err
           (case cfg_seasonality m of
              None \<Rightarrow> Inr acc0
            | Some cs \<Rightarrow>
                if season_periods cs \<noteq> [] then
                  (if season_mode cs = ''additive''
                   then bind_err (tensor_iadd (fst acc0) (seasonality_out env)) (\<lambda>a. Inr (a, snd acc0))
                   else if season_mode cs = ''multiplicative''
                   then bind_err (tensor_iadd (snd acc0) (seasonality_out env)) (\<lambda>mu. Inr (fst acc0, mu))
                   else Inr acc0)
                else Inr acc0)
        (\<lambda>acc1. bind_err
           (if events_dims_present m then
              bind_err
                (case additive_events_input env of
                   None \<Rightarrow> Inr acc1
                 | Some inp \<Rightarrow>
                     bind_err (scalar_features_effects inp (event_params_additive m))
                       (\<lambda>ev. bind_err (tensor_iadd (fst acc1) ev) (\<lambda>a. Inr (a, snd acc1))))
                (\<lambda>acc. case multiplicative_events_input env of
                   None \<Rightarrow> Inr acc
                 | Some inp \<Rightarrow>
                     bind_err (scalar_features_effects inp (event_params_multiplicative m))
                       (\<lambda>ev. bind_err (tensor_iadd (snd acc) ev) (\<lambda>mu. Inr (fst acc, mu))))
            else Inr acc1)
        (\<lambda>acc2. bind_err
           (case additive_regressors_out env of
              None \<Rightarrow> Inr acc2
            | Some r \<Rightarrow>
                if regressors_configured m
                then bind_err (tensor_iadd (fst acc2) r) (\<lambda>a. Inr (a, snd acc2))
                else Inl AttributeError)
        (\<lambda>acc3. case multiplicative_regressors_out env of
              None \<Rightarrow> Inr acc3
            | Some r \<Rightarrow>
                if regressors_configured m
                then bind_err (tensor_iadd (snd acc3) r) (\<lambda>mu. Inr (fst acc3, mu))
                else Inl AttributeError))))"

text \<open>\<open>x[:, :n_lags, 0]\<close>; an index 0 in an empty last dimension raises IndexError.\<close>

definition slice_lags_channel0 :: "nat \<Rightarrow> tensor \<Rightarrow> error + matrix" where
  "slice_lags_channel0 n x =
     (if list_ex (list_ex (\<lambda>c. c = [])) x then Inl IndexError
      else Inr (map (\<lambda>r. map (\<lambda>c. c ! 0) (take n r)) x))"

text \<open>
  The accumulator over the horizon: the autoregression on the lags from which the
  nonstationary components have been subtracted, and the covariate network.
\<close>

definition additive_accumulator :: "timenet \<Rightarrow> forward_env \<Rightarrow> tensor \<Rightarrow> tensor \<Rightarrow> error + tensor" where
  "additive_accumulator m env a mu =
     (let B = length (time_input env);
          Q = length (quantiles m);
          acc0 = zeros B (n_forecasts m) Q
      in bind_err
           (case lags_input env of
              None \<Rightarrow> Inr acc0
            | Some lags_in \<Rightarrow>
                bind_err (slice_lags_channel0 (n_lags m) (trend_out env)) (\<lambda>trend_l.
                bind_err (slice_lags_channel0 (n_lags m) a) (\<lambda>a_l.
                bind_err (slice_lags_channel0 (n_lags m) mu) (\<lambda>mu_l.
                bind_err (matrix_op (+) trend_l a_l) (\<lambda>s1.
                bind_err (matrix_op (*) (detach trend_l) mu_l) (\<lambda>s2.
                bind_err (matrix_op (+) s1 s2) (\<lambda>nonstationary_components.
                bind_err (matrix_op (-) lags_in nonstationary_components) (\<lambda>stationarized_lags.
                if has_ar_net m then
                  bind_err (view3 (n_forecasts m) Q (ar_net m stationarized_lags)) (\<lambda>lags.
                  tensor_iadd acc0 lags)
                else Inl AttributeError))))))))
        (\<lambda>acc1.
           if lagged_regressors_configured m
           then bind_err (view3 (n_forecasts m) Q (covar_net_out env)) (\<lambda>covariates.
                tensor_iadd acc1 covariates)
           else Inr acc1))"

text \<open>\<open>x[:, n_lags : time_input.shape[1], :]\<close>.\<close>

definition slice_horizon :: "nat \<Rightarrow> nat \<Rightarrow> tensor \<Rightarrow> tensor" where
  "slice_horizon n T x = map (\<lambda>r. drop n (take T r)) x"

text \<open>"Combine components and compute predictions": the value of \<open>prediction\<close>.\<close>

definition combine_components ::
  "timenet \<Rightarrow> forward_env \<Rightarrow> tensor \<Rightarrow> tensor \<Rightarrow> tensor \<Rightarrow> error + tensor" where
  "combine_components m env a mu ad =
     (let T = window_length (time_input env);
          trend_h = slice_horizon (n_lags m) T (trend_out env)
      in bind_err (tensor_op (+) trend_h (slice_horizon (n_lags m) T a)) (\<lambda>s1.
         bind_err (tensor_op (*) (detach trend_h) (slice_horizon (n_lags m) T mu)) (\<lambda>s2.
         bind_err (tensor_op (+) s1 s2) (\<lambda>predictions_nonstationary.
         tensor_op (+) predictions_nonstationary ad))))"

definition forward_prediction :: "timenet \<Rightarrow> forward_env \<Rightarrow> error + tensor" where
  "forward_prediction m env =
     bind_err (nonstationary_accumulators m env) (\<lambda>(a, mu).
     bind_err (additive_accumulator m env a mu) (\<lambda>ad.
     combine_components m env a mu ad))"

text \<open>
  \<open>forward(input_tensor, mode, meta)\<close>: the first component of its result,
  \<open>prediction_with_quantiles\<close>.  The second one, the decomposition that
  \<open>compute_components\<close> builds when \<open>include_components\<close> is set, is computed after it
  and is not part of this development.
\<close>

definition forward :: "timenet \<Rightarrow> forward_env \<Rightarrow> mode \<Rightarrow> error + tensor" where
  "forward m env md =
     bind_err (forward_prediction m env) (\<lambda>prediction.
     bind_err (compute_quantile_forecasts_from_diffs (quantiles m) prediction (predict_mode_of md))
       (\<lambda>(prediction_with_quantiles, _). Inr prediction_with_quantiles))"

section \<open>Training step\<close>

text \<open>
  The calls of \<open>training_step\<close> on the optimizer, the scheduler and the logger.
  \<open>ZeroGrad\<close> is \<open>optimizer.zero_grad()\<close>, \<open>Backward l\<close> is \<open>self.manual_backward(l)\<close>,
  \<open>OptimizerStep\<close> is \<open>optimizer.step()\<close>, \<open>SchedulerStep None\<close> is \<open>scheduler.step()\<close>,
  \<open>SchedulerStep (Some e)\<close> is \<open>scheduler.step(epoch=e)\<close>.
\<close>

datatype action =
  ZeroGrad | Backward real | OptimizerStep | SchedulerStep "real option" | Log string | LogDict

fun is_optimization_action :: "action \<Rightarrow> bool" where
  "is_optimization_action ZeroGrad = True"
| "is_optimization_action (Backward l) = True"
| "is_optimization_action OptimizerStep = True"
| "is_optimization_action (SchedulerStep e) = True"
| "is_optimization_action (Log n) = False"
| "is_optimization_action LogDict = False"

text \<open>
  The state that the calls change, as far as their order goes: the list of the calls made
  so far.  Each call on a collaborator appends itself.
\<close>

record trainer_state =
  calls :: "action list"

definition call :: "action \<Rightarrow> trainer_state \<Rightarrow> trainer_state" where
  "call a st = st\<lparr>calls := calls st @ [a]\<rparr>"

text \<open>
  \<open>denormalize(ts)\<close>: the map it applies to every element of \<open>ts\<close>.  Under
  \<open>if global_normalization\<close> the two conditional expressions read
  \<open>global_data_params["y"]\<close> only when \<open>normalize\<close> is not "off".
\<close>

definition denormalize :: "timenet \<Rightarrow> error + (real \<Rightarrow> real)" where
  "denormalize m =
     (case cfg_normalization m of
        None \<Rightarrow> Inl AttributeError
      | Some cn \<Rightarrow>
          if global_normalization cn then
            (if normalize cn \<noteq> ''off''
             then (case global_data_params_y cn of
                     None \<Rightarrow> Inl KeyError
                   | Some (shift_y, scale_y) \<Rightarrow> Inr (\<lambda>x. scale_y * x + shift_y))
             else Inr (\<lambda>x. 1 * x + 0))
          else Inr (\<lambda>x. x))"

text \<open>\<open>predicted[:, :, 0]\<close>; an index 0 in an empty last dimension raises IndexError.\<close>

definition channel0 :: "tensor \<Rightarrow> error + matrix" where
  "channel0 x =
     (if list_ex (list_ex (\<lambda>c. c = [])) x then Inl IndexError
      else Inr (map (map (\<lambda>c. c ! 0)) x))"

text \<open>
  The metrics block at the end of \<open>training_step\<close>: the two calls of \<open>denormalize\<close>
  (\<open>squeeze\<close> keeps the values of the targets), then the calls on the logger.  The metric
  collection is a collaborator that returns.
\<close>

definition log_metrics :: "timenet \<Rightarrow> tensor \<Rightarrow> tensor \<Rightarrow> trainer_state \<Rightarrow> trainer_state \<times> error option" where
  "log_metrics m predicted targets st =
     (case channel0 predicted of
        Inl e \<Rightarrow> (st, Some e)
      | Inr predicted0 \<Rightarrow>
          (case denormalize m of
             Inl e \<Rightarrow> (st, Some e)
           | Inr f \<Rightarrow>
               let predicted_denorm = map (map f) predicted0
               in (case denormalize m of
                     Inl e \<Rightarrow> (st, Some e)
                   | Inr g \<Rightarrow>
                       let target_denorm = map (map (map g)) targets
                       in (call (Log ''LR'') (call (Log ''RegLoss'')
                             (call (Log ''Loss'') (call LogDict st))), None))))"

text \<open>
  \<open>training_step(batch, batch_idx)\<close> on the batch \<open>(inputs_tensor, meta)\<close>, where
  \<open>df_name\<close> is \<open>meta["df_name"]\<close>: the state after the step, and the loss returned or the
  error raised.  The divisions are divisions of Python floats, which raise on a zero
  divisor; the lookup of a series name that is not a key of \<open>id_dict\<close> raises KeyError.
  The components stacker, the optimizer, the scheduler and the logger are collaborators
  that return.
\<close>

definition training_step ::
  "timenet \<Rightarrow> reg_values \<Rightarrow> forward_env \<Rightarrow> tensor \<Rightarrow> string list \<Rightarrow> nat \<Rightarrow> nat \<Rightarrow> trainer_state
     \<Rightarrow> trainer_state \<times> (error + real)" where
  "training_step m rv env targets df_name current_epoch batch_idx st =
     (if train_steps_per_epoch m = 0 then (st, Inl ZeroDivisionError)
      else
        let epoch_float = real current_epoch + real batch_idx / real (train_steps_per_epoch m)
        in if epochs (cfg_train m) = 0 then (st, Inl ZeroDivisionError)
           else
             let train_progress = epoch_float / real (epochs (cfg_train m))
             in if meta_used_in_model m \<and> list_ex (\<lambda>i. i \<notin> set (id_list m)) df_name
                then (st, Inl KeyError)
                else
                  case forward m env Train of
                    Inl e \<Rightarrow> (st, Inl e)
                  | Inr predicted \<Rightarrow>
                      (case loss_func m rv (Some train_progress) (time_input env) predicted targets of
                         Inl e \<Rightarrow> (st, Inl e)
                       | Inr (loss, reg_loss) \<Rightarrow>
                           let st1 = call ZeroGrad st;
                               st2 = call (Backward loss) st1;
                               st3 = call OptimizerStep st2;
                               st4 = (if finding_lr m
                                      then call (SchedulerStep None) st3
                                      else call (SchedulerStep (Some epoch_float)) st3);
                               st5 = (if finding_lr m then call (Log ''train_loss'') st4 else st4)
                           in if metrics_enabled m \<and> \<not> finding_lr m
                              then (case log_metrics m predicted targets st5 of
                                      (st6, Some e) \<Rightarrow> (st6, Inl e)
                                    | (st6, None) \<Rightarrow> (st6, Inr loss))
                              else (st5, Inr loss)))"

section \<open>Notions used in the statements\<close>

text \<open>
  The half-cosine ramp of the specification, from 0 at \<open>x = 0\<close> to 1 at \<open>x = 1\<close>.
\<close>

definition spec_half_cosine :: "real \<Rightarrow> real" where
  "spec_half_cosine x = 1/2 * cos (pi * (x - 1)) + 1/2"

text \<open>
  The conditions of the two blocks of \<open>_add_batch_regularizations\<close> that no test of
  \<open>delay_weight\<close> guards, as the source writes them: for the trend
  \<open>trend_global_local == "local" and trend_local_reg\<close>, for the seasonality
  \<open>global_local in ["local", "glocal"] and seasonality_local_reg\<close>.
\<close>

definition trend_local_term_on :: "timenet \<Rightarrow> bool" where
  "trend_local_term_on m =
     (case cfg_trend m of
        None \<Rightarrow> False
      | Some ct \<Rightarrow> trend_global_local ct = ''local'' \<and> truthy (trend_local_reg ct))"

definition seasonality_local_term_on :: "timenet \<Rightarrow> bool" where
  "seasonality_local_term_on m =
     (case cfg_seasonality m of
        None \<Rightarrow> False
      | Some cs \<Rightarrow> (season_global_local cs = ''local'' \<or> season_global_local cs = ''glocal'')
                   \<and> truthy (seasonality_local_reg cs))"

definition is_local_term :: "reg_term \<Rightarrow> bool" where
  "is_local_term t = (t = TrendGlocal \<or> t = SeasonalityGlocal)"

text \<open>
  The misconfigurations of the constructor.  \<open>collaborators_supplied\<close> says that the
  call hands over what the constructor reads without a test: the training configuration,
  metrics whose classes torchmetrics has, the future-regressor configuration, the layer
  list of the autoregression when there are lags, and the layer list of the lagged
  regressors when there are any.
\<close>

definition collaborators_supplied :: "string list \<Rightarrow> init_args \<Rightarrow> bool" where
  "collaborators_supplied tm a =
     (arg_config_train a \<noteq> None \<and> \<not> metrics_lookup_fails tm a
      \<and> arg_regressors_configured a \<noteq> None
      \<and> (arg_n_lags a > 0 \<longrightarrow> arg_ar_layers a \<noteq> None)
      \<and> (\<forall>lr. arg_config_lagged_regressors a = Some lr \<and> lagged_regressors_present lr
             \<longrightarrow> lagged_layers lr \<noteq> None))"

definition multiplicative_seasonality_without_trend :: "init_args \<Rightarrow> bool" where
  "multiplicative_seasonality_without_trend a =
     (case arg_config_seasonality a of
        None \<Rightarrow> False
      | Some cs \<Rightarrow> season_mode cs = ''multiplicative'' \<and> arg_config_trend a = None)"

definition unknown_seasonality_mode :: "init_args \<Rightarrow> bool" where
  "unknown_seasonality_mode a =
     (case arg_config_seasonality a of
        None \<Rightarrow> False
      | Some cs \<Rightarrow> season_mode cs \<noteq> ''additive'' \<and> season_mode cs \<noteq> ''multiplicative'')"

definition multiplicative_event_without_trend :: "init_args \<Rightarrow> bool" where
  "multiplicative_event_without_trend a =
     (case arg_events_dims a of
        None \<Rightarrow> False
      | Some dims \<Rightarrow>
          arg_config_trend a = None \<and> list_ex (\<lambda>(event, configs). event_mode configs = ''multiplicative'') dims)"

definition unknown_event_mode :: "event_dims \<Rightarrow> bool" where
  "unknown_event_mode configs =
     (event_mode configs \<noteq> ''additive'' \<and> event_mode configs \<noteq> ''multiplicative'')"

text \<open>An entry of \<open>events_dims\<close> with an unrecognized mode set to additive.\<close>

definition coerced :: "string \<times> event_dims \<Rightarrow> string \<times> event_dims" where
  "coerced ec = (if unknown_event_mode (snd ec) then (fst ec, (snd ec)\<lparr>event_mode := ''additive''\<rparr>) else ec)"

section \<open>A model and a batch for the examples\<close>

text \<open>
  A model of three quantiles with one lag and two forecast steps, a local trend, an
  additive glocal seasonality and multiplicative future regressors; the regularization
  starts at half of the training; the loss is the absolute error; the autoregression
  network returns the sum of its lags in every output; the normalization is global with
  the shift 10 and the scale 2; the series are north and south.  The batch has one row.
\<close>

definition example_config_train :: config_train where
  "example_config_train =
     \<lparr>newer_samples_weight = 2, newer_samples_start = 0, epochs = 10,
      get_reg_delay_weight = (\<lambda>progress. if progress < 1/2 then 0 else 1),
      loss_func_elementwise =
        (\<lambda>predicted targets. map2 (map2 (\<lambda>p t. map (\<lambda>x. \<bar>x - hd t\<bar>) p)) predicted targets)\<rparr>"

definition example_model :: timenet where
  "example_model =
     \<lparr>quantiles = [1/2, 1/10, 9/10], n_forecasts = 2, max_lags = 1, n_lags = 1,
      cfg_trend = Some \<lparr>trend_reg = Some 1, n_changepoints = 10,
                        trend_global_local = ''local'', trend_local_reg = Some 1\<rparr>,
      cfg_seasonality = Some \<lparr>season_mode = ''additive'', season_periods = [''weekly''],
                              season_reg_lambda = Some 1, season_global_local = ''glocal'',
                              seasonality_local_reg = Some 1\<rparr>,
      cfg_ar = Some \<lparr>ar_reg_lambda = Some 1\<rparr>,
      cfg_train = example_config_train,
      events_or_holidays_configured = False, regressors_configured = True,
      season_dims_present = True, has_ar_net = True, reg_enabled = True, finding_lr = False,
      metrics_enabled = True, train_steps_per_epoch = 4,
      events_dims_present = False, event_params_additive = [], event_params_multiplicative = [],
      lagged_regressors_configured = False,
      ar_net = (\<lambda>lags. map (\<lambda>r. replicate 6 (sum_list r)) lags),
      cfg_normalization = Some \<lparr>global_normalization = True, normalize = ''standardize'',
                                global_data_params_y = Some (10, 2)\<rparr>,
      meta_used_in_model = True, id_list = [''north'', ''south'']\<rparr>"

definition example_env :: forward_env where
  "example_env =
     \<lparr>time_input = [[-1, 0, 1]],
      trend_out = [[[1, 0, 0], [2, 0, 0], [3, 0, 0]]],
      seasonality_out = [[[1, 1, 1], [1, 1, 1], [1, 1, 1]]],
      additive_events_input = None, multiplicative_events_input = None,
      additive_regressors_out = None,
      multiplicative_regressors_out = Some [[[1, 1, 1], [1, 1, 1], [1, 1, 1]]],
      lags_input = Some [[5]],
      covar_net_out = []\<rparr>"

definition example_values :: reg_values where
  "example_values =
     \<lparr>val_ar_regularize = [[1, 1]], val_reg_trend = 1, val_reg_season = [(''weekly'', 1)],
      val_reg_events = 0, val_reg_regressors = 1/2,
      val_reg_trend_glocal = 1/4, val_reg_seasonality_glocal = 1/8\<rparr>"

text \<open>
  Arguments of the constructor with two events, the first of an unrecognized mode, the
  second multiplicative.
\<close>

definition example_args :: init_args where
  "example_args =
     \<lparr>arg_config_seasonality = cfg_seasonality example_model,
      arg_config_train = Some example_config_train,
      arg_config_trend = cfg_trend example_model,
      arg_regressors_configured = Some True,
      arg_events_dims = Some [(''sale'', \<lparr>event_mode = ''exponential'', event_indices = [0, 1]\<rparr>),
                              (''promotion'', \<lparr>event_mode = ''multiplicative'', event_indices = [2]\<rparr>)],
      arg_n_lags = 1, arg_ar_layers = Some [],
      arg_metrics = Some [(''MAE'', ''MeanAbsoluteError'')],
      arg_config_lagged_regressors =
        Some \<lparr>lagged_regressors_present = True, lagged_layers = Some [4]\<rparr>\<rparr>"

text \<open>
  The arguments that the defaults of the constructor give, beside an additive
  seasonality: no training configuration, no trend, no regressors, no events, no lags,
  no metrics.
\<close>

definition default_args :: init_args where
  "default_args =
     \<lparr>arg_config_seasonality = cfg_seasonality example_model,
      arg_config_train = None,
      arg_config_trend = None,
      arg_regressors_configured = None,
      arg_events_dims = None,
      arg_n_lags = 0, arg_ar_layers = Some [],
      arg_metrics = Some [],
      arg_config_lagged_regressors = None\<rparr>"

text \<open>Names of classes of torchmetrics, for the examples.\<close>

definition example_torchmetrics :: "string list" where
  "example_torchmetrics = [''MeanAbsoluteError'', ''MeanSquaredError'']"

section \<open>Properties of the quantile reconciliation\<close>

lemma length_spec_running_max [simp]: "length (spec_running_max a xs) = length xs"
  by (induction xs arbitrary: a) auto

lemma spec_running_max_ge_all: "\<forall>x\<in>set (spec_running_max a xs). a \<le> x"
proof (induction xs arbitrary: a)
  case Nil
  then show ?case by simp
next
  case (Cons y ys)
  have "\<forall>x\<in>set (spec_running_max (max a y) ys). max a y \<le> x" by (rule Cons.IH)
  then have "\<forall>x\<in>set (spec_running_max (max a y) ys). a \<le> x"
    by (meson max.bounded_iff)
  moreover have "a \<le> max a y" by (rule max.cobounded1)
  ultimately show ?case by simp
qed

lemma sorted_spec_running_max: "sorted (spec_running_max a xs)"
proof (induction xs arbitrary: a)
  case Nil
  then show ?case by simp
next
  case (Cons y ys)
  show ?case unfolding spec_running_max.simps sorted_simps(2)
    by (rule conjI [OF spec_running_max_ge_all Cons.IH])
qed

lemma spec_running_max_snoc:
  "spec_running_max a (xs @ [x]) = spec_running_max a xs @ [max (last (a # spec_running_max a xs)) x]"
  by (induction xs arbitrary: a) simp_all

lemma fold_upper:
  "d + k < length s \<Longrightarrow>
   fold (\<lambda>i ds. ds[d + (i + 1) := max (ds ! (d + (i + 1))) (ds ! (d + i))]) [0 ..< k] s
   = take (Suc d) s @ spec_running_max (s ! d) (take k (drop (Suc d) s)) @ drop (Suc d + k) s"
proof (induction k arbitrary: d s)
  case 0
  then show ?case by simp
next
  case (Suc k)
  let ?f = "\<lambda>d i (ds::real list). ds[d + (i + 1) := max (ds ! (d + (i + 1))) (ds ! (d + i))]"
  let ?s = "s[Suc d := max (s ! Suc d) (s ! d)]"
  have upt: "[0 ..< Suc k] = 0 # map Suc [0 ..< k]"
    by (simp add: upt_conv_Cons map_Suc_upt del: upt_Suc)
  have "fold (?f d) [0 ..< Suc k] s = fold (?f (Suc d)) [0 ..< k] ?s"
    unfolding upt by (simp add: fold_map comp_def)
  also have "\<dots> = take (Suc (Suc d)) ?s @ spec_running_max (?s ! Suc d) (take k (drop (Suc (Suc d)) ?s))
                     @ drop (Suc (Suc d) + k) ?s"
    using Suc.prems by (intro Suc.IH) simp
  also have "\<dots> = take (Suc d) s @ spec_running_max (s ! d) (take (Suc k) (drop (Suc d) s)) @ drop (Suc d + Suc k) s"
  proof -
    have a: "take (Suc (Suc d)) ?s = take (Suc d) s @ [max (s ! Suc d) (s ! d)]"
      using Suc.prems by (simp add: take_Suc_conv_app_nth)
    have b: "drop (Suc (Suc d)) ?s = drop (Suc (Suc d)) s" by simp
    have c: "?s ! Suc d = max (s ! Suc d) (s ! d)" using Suc.prems by simp
    have d: "take (Suc k) (drop (Suc d) s) = s ! Suc d # take k (drop (Suc (Suc d)) s)"
      using Suc.prems by (simp add: Cons_nth_drop_Suc [symmetric])
    have e: "drop (Suc (Suc d) + k) ?s = drop (Suc d + Suc k) s" by simp
    show ?thesis unfolding a b c d e by (simp add: max.commute)
  qed
  finally show ?case .
qed

lemma clamp_upper_eq:
  assumes "d < length ds" "n = length ds - d"
  shows "clamp_upper d n ds = take d ds @ spec_running_max 0 (drop d ds)"
proof -
  let ?s = "ds[d := max 0 (ds ! d)]"
  have k: "d + (n - 1) < length ?s" using assms by simp
  have "clamp_upper d n ds = take (Suc d) ?s @ spec_running_max (?s ! d) (take (n - 1) (drop (Suc d) ?s))
          @ drop (Suc d + (n - 1)) ?s"
    unfolding clamp_upper_def by (rule fold_upper [OF k])
  also have "take (Suc d) ?s = take d ds @ [max 0 (ds ! d)]"
    using assms by (simp add: take_Suc_conv_app_nth)
  also have "?s ! d = max 0 (ds ! d)" using assms by simp
  also have "take (n - 1) (drop (Suc d) ?s) = drop (Suc d) ds" using assms by simp
  also have "drop (Suc d + (n - 1)) ?s = []" using assms by simp
  finally have main: "clamp_upper d n ds
      = (take d ds @ [max 0 (ds ! d)]) @ spec_running_max (max 0 (ds ! d)) (drop (Suc d) ds) @ []" .
  have dd: "drop d ds = ds ! d # drop (Suc d) ds"
    using assms by (simp add: Cons_nth_drop_Suc)
  show ?thesis unfolding main dd by simp
qed

lemma fold_lower:
  "Suc n < length s \<Longrightarrow>
   fold (\<lambda>i ds. ds[1 + (i - 1) := max (ds ! (1 + (i - 1))) (ds ! (1 + i))]) (rev [1 ..< Suc n]) s
   = take 1 s @ rev (spec_running_max (s ! Suc n) (rev (take n (drop 1 s)))) @ drop (Suc n) s"
proof (induction n arbitrary: s)
  case 0
  then show ?case by (cases s) simp_all
next
  case (Suc n)
  let ?g = "\<lambda>i (ds::real list). ds[1 + (i - 1) := max (ds ! (1 + (i - 1))) (ds ! (1 + i))]"
  let ?s = "s[Suc n := max (s ! Suc n) (s ! Suc (Suc n))]"
  have "fold ?g (rev [1 ..< Suc (Suc n)]) s = fold ?g (rev [1 ..< Suc n]) ?s"
    by simp
  also have "\<dots> = take 1 ?s @ rev (spec_running_max (?s ! Suc n) (rev (take n (drop 1 ?s)))) @ drop (Suc n) ?s"
    using Suc.prems by (intro Suc.IH) simp
  also have "\<dots> = take 1 s @ rev (spec_running_max (s ! Suc (Suc n)) (rev (take (Suc n) (drop 1 s))))
        @ drop (Suc (Suc n)) s"
  proof -
    have a: "take 1 ?s = take 1 s" by simp
    have b: "take n (drop 1 ?s) = take n (drop 1 s)" by (simp add: drop_update_swap)
    have c: "?s ! Suc n = max (s ! Suc n) (s ! Suc (Suc n))" using Suc.prems by simp
    have d: "drop (Suc n) ?s = max (s ! Suc n) (s ! Suc (Suc n)) # drop (Suc (Suc n)) s"
      using Suc.prems by (simp add: Cons_nth_drop_Suc [symmetric])
    have e: "take (Suc n) (drop 1 s) = take n (drop 1 s) @ [s ! Suc n]"
      using Suc.prems by (simp add: take_Suc_conv_app_nth)
    show ?thesis unfolding a b c d e by (simp add: max.commute)
  qed
  finally show ?case .
qed

lemma clamp_lower_eq:
  assumes "0 < n" "n < length ds"
  shows "clamp_lower n ds = take 1 ds @ rev (spec_running_max 0 (rev (take n (drop 1 ds)))) @ drop (Suc n) ds"
proof -
  obtain m where n: "n = Suc m" using assms by (cases n) auto
  let ?s = "ds[Suc m := max 0 (ds ! Suc m)]"
  have k: "Suc m < length ?s" using assms n by simp
  have "clamp_lower n ds = take 1 ?s @ rev (spec_running_max (?s ! Suc m) (rev (take m (drop 1 ?s)))) @ drop (Suc m) ?s"
    unfolding clamp_lower_def n by (rule fold_lower [OF k])
  also have "take 1 ?s = take 1 ds" by simp
  also have "?s ! Suc m = max 0 (ds ! Suc m)" using assms n by simp
  also have "take m (drop 1 ?s) = take m (drop 1 ds)" by (simp add: drop_update_swap)
  also have "drop (Suc m) ?s = max 0 (ds ! Suc m) # drop (Suc (Suc m)) ds"
    using assms n by (simp add: Cons_nth_drop_Suc [symmetric])
  finally have main: "clamp_lower n ds = take 1 ds
      @ rev (spec_running_max (max 0 (ds ! Suc m)) (rev (take m (drop 1 ds))))
      @ max 0 (ds ! Suc m) # drop (Suc (Suc m)) ds" .
  have e: "take (Suc m) (drop 1 ds) = take m (drop 1 ds) @ [ds ! Suc m]"
    using assms n by (simp add: take_Suc_conv_app_nth)
  from main show ?thesis unfolding n e by simp
qed

lemma divider_le_length: "quantiles_divider_index qs \<le> length qs"
  by (simp add: quantiles_divider_index_def length_takeWhile_le)

lemma divider_pos: "qs \<noteq> [] \<Longrightarrow> hd qs \<le> 1/2 \<Longrightarrow> 1 \<le> quantiles_divider_index qs"
  by (cases qs) (auto simp: quantiles_divider_index_def)

lemma below_divider: "i < quantiles_divider_index qs \<Longrightarrow> qs ! i \<le> 1/2"
proof -
  assume i: "i < quantiles_divider_index qs"
  show ?thesis
  proof (cases "list_ex (\<lambda>quantile. quantile > 1/2) qs")
    case True
    with i have "i < length (takeWhile (\<lambda>quantile. \<not> quantile > 1/2) qs)"
      by (simp add: quantiles_divider_index_def)
    from nth_length_takeWhile [of "\<lambda>quantile. \<not> quantile > 1/2" qs] takeWhile_nth [OF this] nth_mem [OF this]
    show ?thesis by (metis not_less set_takeWhileD) 
  next
    case False
    with i have "i < length qs" by (simp add: quantiles_divider_index_def)
    with False show ?thesis by (auto simp: list_ex_iff not_less)
  qed
qed

lemma at_divider: "quantiles_divider_index qs < length qs \<Longrightarrow> qs ! quantiles_divider_index qs > 1/2"
proof -
  assume d: "quantiles_divider_index qs < length qs"
  then have ex: "list_ex (\<lambda>quantile. quantile > 1/2) qs"
    by (auto simp: quantiles_divider_index_def split: if_splits)
  then have eq: "quantiles_divider_index qs = length (takeWhile (\<lambda>quantile. \<not> quantile > 1/2) qs)"
    by (simp add: quantiles_divider_index_def)
  from d nth_length_takeWhile [of "\<lambda>quantile. \<not> quantile > 1/2" qs]
  show ?thesis unfolding eq by simp
qed

lemma row_predict:
  assumes "1 \<le> quantiles_divider_index qs" "quantiles_divider_index qs \<le> length dfs"
  shows "quantile_forecasts_row qs True dfs =
     Inr (dfs ! 0 # map (\<lambda>x. - x + dfs ! 0)
            (rev (spec_running_max 0 (rev (take (quantiles_divider_index qs - 1) (drop 1 dfs)))))
          @ map (\<lambda>x. x + dfs ! 0) (spec_running_max 0 (drop (quantiles_divider_index qs) dfs)),
          dfs ! 0 # rev (spec_running_max 0 (rev (take (quantiles_divider_index qs - 1) (drop 1 dfs))))
          @ spec_running_max 0 (drop (quantiles_divider_index qs) dfs))"
proof -
  define d where "d = quantiles_divider_index qs"
  obtain m rest where dfs: "dfs = m # rest" using assms by (cases dfs) auto
  have "1 \<le> d" using assms by (simp add: d_def)
  then obtain e where d: "d = Suc e" by (cases d) auto
  have e: "e \<le> length rest" using assms dfs d d_def by simp
  define up where "up = spec_running_max 0 (drop e rest)"
  define lo where "lo = rev (spec_running_max 0 (rev (take e rest)))"
  have u: "d < length dfs \<Longrightarrow> clamp_upper d (length dfs - d) dfs = take d dfs @ spec_running_max 0 (drop d dfs)"
    by (rule clamp_upper_eq) simp_all
  have l: "0 < e \<Longrightarrow> clamp_lower e (m # take e rest @ up) = m # lo @ up"
    using e by (subst clamp_lower_eq) (simp_all add: lo_def up_def)
  have len: "length up = length rest - e" by (simp add: up_def)
  have lenlo: "length lo = e" using e by (simp add: lo_def)
  show ?thesis
    unfolding quantile_forecasts_row_def d_def [symmetric] Let_def
    using u l e len lenlo
    by (auto simp: dfs d detach_def up_def [symmetric] lo_def [symmetric])
qed

lemma row_train:
  assumes "1 \<le> quantiles_divider_index qs" "quantiles_divider_index qs \<le> length dfs"
  shows "quantile_forecasts_row qs False dfs =
     Inr (dfs ! 0 # map (\<lambda>x. - x + dfs ! 0) (take (quantiles_divider_index qs - 1) (drop 1 dfs))
          @ map (\<lambda>x. x + dfs ! 0) (drop (quantiles_divider_index qs) dfs),
          dfs)"
proof -
  define d where "d = quantiles_divider_index qs"
  obtain m rest where dfs: "dfs = m # rest" using assms by (cases dfs) auto
  have "1 \<le> d" using assms by (simp add: d_def)
  then obtain e where d: "d = Suc e" by (cases d) auto
  have e: "e \<le> length rest" using assms dfs d d_def by simp
  show ?thesis
    unfolding quantile_forecasts_row_def d_def [symmetric] Let_def
    using e
    by (auto simp: dfs d detach_def)
qed

lemma collect_map_Inr:
  "(\<And>x. x \<in> set xs \<Longrightarrow> f x = Inr (g x)) \<Longrightarrow> collect (map f xs) = Inr (map g xs)"
  by (induction xs) simp_all

lemma length_spec_clamped_offsets:
  "1 \<le> d \<Longrightarrow> d \<le> length r \<Longrightarrow> length (spec_clamped_offsets d r) = length r"
  by (auto simp: spec_clamped_offsets_def)

lemma length_spec_absolute_quantiles:
  "1 \<le> d \<Longrightarrow> d \<le> length r \<Longrightarrow> length (spec_absolute_quantiles d r) = length r"
  by (auto simp: spec_absolute_quantiles_def)

lemma row_predict_spec:
  assumes "1 \<le> quantiles_divider_index qs" "quantiles_divider_index qs \<le> length dfs"
  shows "quantile_forecasts_row qs True dfs =
     Inr (spec_absolute_quantiles (quantiles_divider_index qs)
            (spec_clamped_offsets (quantiles_divider_index qs) dfs),
          spec_clamped_offsets (quantiles_divider_index qs) dfs)"
proof -
  define d where "d = quantiles_divider_index qs"
  define lo where "lo = rev (spec_running_max 0 (rev (take (d - 1) (drop 1 dfs))))"
  define up where "up = spec_running_max 0 (drop d dfs)"
  have d: "1 \<le> d" "d \<le> length dfs" using assms by (simp_all add: d_def)
  have lenlo: "length lo = d - 1" using d by (simp add: lo_def)
  have c: "spec_clamped_offsets d dfs = dfs ! 0 # lo @ up"
    by (simp add: spec_clamped_offsets_def lo_def up_def)
  have a: "spec_absolute_quantiles d (dfs ! 0 # lo @ up)
           = dfs ! 0 # map (\<lambda>x. - x + dfs ! 0) lo @ map (\<lambda>x. x + dfs ! 0) up"
    using d lenlo by (cases d) (simp_all add: spec_absolute_quantiles_def)
  show ?thesis
    using row_predict [OF assms]
    unfolding d_def [symmetric] lo_def [symmetric] up_def [symmetric] c a .
qed

lemma row_train_spec:
  assumes "1 \<le> quantiles_divider_index qs" "quantiles_divider_index qs \<le> length dfs"
  shows "quantile_forecasts_row qs False dfs =
     Inr (spec_absolute_quantiles (quantiles_divider_index qs) dfs, dfs)"
  using row_train [OF assms] by (simp add: spec_absolute_quantiles_def)

lemma row_spec:
  assumes "1 \<le> quantiles_divider_index qs" "quantiles_divider_index qs \<le> length dfs"
  shows "quantile_forecasts_row qs pm dfs = Inr (spec_row_result qs pm dfs)"
  using row_predict_spec [OF assms] row_train_spec [OF assms]
  by (cases pm) (simp_all add: spec_row_result_def Let_def)

lemma has_shape_nth:
  "has_shape B T Q x \<Longrightarrow> b < B \<Longrightarrow> t < T \<Longrightarrow> length (x ! b ! t) = Q"
  by (auto simp: has_shape_def list_all_length)

lemma has_shape_row:
  "has_shape B T Q x \<Longrightarrow> b \<in> set x \<Longrightarrow> r \<in> set b \<Longrightarrow> length r = Q"
  by (auto simp: has_shape_def list_all_iff)

lemma has_shape_dims:
  "has_shape B T Q x \<Longrightarrow> length x = B \<and> (\<forall>b<B. length (x ! b) = T)"
  by (auto simp: has_shape_def list_all_length)

lemma has_shape_map:
  assumes "has_shape B T Q x" "\<And>r. length r = Q \<Longrightarrow> length (f r) = Q"
  shows "has_shape B T Q (map (map f) x)"
  using assms by (auto simp: has_shape_def list_all_iff)

lemma compute_spec:
  assumes "1 < length qs" "hd qs \<le> 1/2" "has_shape B H (length qs) dfs"
  shows "compute_quantile_forecasts_from_diffs qs dfs pm =
           Inr (map (map (fst \<circ> spec_row_result qs pm)) dfs, map (map (snd \<circ> spec_row_result qs pm)) dfs)"
proof -
  have qs: "qs \<noteq> []" using assms(1) by auto
  have d1: "1 \<le> quantiles_divider_index qs" by (rule divider_pos [OF qs assms(2)])
  have row: "quantile_forecasts_row qs pm r = Inr (spec_row_result qs pm r)"
    if "b \<in> set dfs" "r \<in> set b" for b r
  proof -
    have "length r = length qs" by (rule has_shape_row [OF assms(3) that])
    then have "quantiles_divider_index qs \<le> length r" by (simp add: divider_le_length)
    then show ?thesis by (rule row_spec [OF d1])
  qed
  have inner: "collect (map (quantile_forecasts_row qs pm) b) = Inr (map (spec_row_result qs pm) b)"
    if "b \<in> set dfs" for b
    by (rule collect_map_Inr) (rule row [OF that])
  have outer: "collect (map (\<lambda>b. collect (map (quantile_forecasts_row qs pm) b)) dfs)
                 = Inr (map (map (spec_row_result qs pm)) dfs)"
    by (rule collect_map_Inr) (rule inner)
  show ?thesis
    unfolding compute_quantile_forecasts_from_diffs_def outer using assms(1) by simp
qed

lemma fst_spec_row_result_0:
  assumes "1 \<le> quantiles_divider_index qs" "quantiles_divider_index qs \<le> length r"
  shows "fst (spec_row_result qs pm r) ! 0 = r ! 0"
  by (simp add: spec_row_result_def Let_def spec_absolute_quantiles_def spec_clamped_offsets_def)

text \<open>
  Claim C7.  Whatever the mode, the median channel (channel 0) of the output equals the
  median channel of the input, for every quantile list whose index 0 does not exceed
  0.5 (in a configured list it is 0.5) or that has at most one quantile, and for every
  input whose last dimension is the number of quantiles.  The call returns.
\<close>

theorem median_invariance:
  assumes "length qs \<le> 1 \<or> hd qs \<le> 1/2" and "has_shape B H (length qs) dfs"
  shows "\<exists>out dfs'. compute_quantile_forecasts_from_diffs qs dfs (predict_mode_of md) = Inr (out, dfs')
           \<and> has_shape B H (length qs) out
           \<and> (\<forall>b<B. \<forall>h<H. out ! b ! h ! 0 = dfs ! b ! h ! 0)"
proof (cases "length qs \<le> 1")
  case True
  then show ?thesis using assms(2) by (simp add: compute_quantile_forecasts_from_diffs_def)
next
  case False
  then have n: "1 < length qs" and hd: "hd qs \<le> 1/2" using assms(1) by auto
  let ?pm = "predict_mode_of md"
  let ?out = "map (map (fst \<circ> spec_row_result qs ?pm)) dfs"
  have d1: "1 \<le> quantiles_divider_index qs" using n hd by (intro divider_pos) auto
  have eq: "compute_quantile_forecasts_from_diffs qs dfs ?pm
              = Inr (?out, map (map (snd \<circ> spec_row_result qs ?pm)) dfs)"
    by (rule compute_spec [OF n hd assms(2)])
  have len: "length (fst (spec_row_result qs ?pm r)) = length qs" if "length r = length qs" for r
    using that d1 divider_le_length [of qs]
    by (simp add: spec_row_result_def Let_def length_spec_absolute_quantiles length_spec_clamped_offsets)
  have shape: "has_shape B H (length qs) ?out"
    using has_shape_map [OF assms(2), of "fst \<circ> spec_row_result qs ?pm"] len by simp
  have med: "?out ! b ! h ! 0 = dfs ! b ! h ! 0" if "b < B" "h < H" for b h
  proof -
    have "length (dfs ! b ! h) = length qs" by (rule has_shape_nth [OF assms(2) that])
    then have "fst (spec_row_result qs ?pm (dfs ! b ! h)) ! 0 = dfs ! b ! h ! 0"
      using d1 divider_le_length [of qs] by (intro fst_spec_row_result_0) simp_all
    then show ?thesis using that has_shape_dims [OF assms(2)] by simp
  qed
  show ?thesis using eq shape med by blast
qed

text \<open>
  Claim C8.  With exactly one quantile the function returns its input, in every mode,
  and leaves the input as it was.
\<close>

theorem single_quantile_identity:
  assumes "length qs = 1"
  shows "compute_quantile_forecasts_from_diffs qs dfs predict_mode = Inr (dfs, dfs)"
  using assms by (simp add: compute_quantile_forecasts_from_diffs_def)

lemma above_divider:
  assumes "quantiles_configured qs" "quantiles_divider_index qs \<le> k" "k < length qs"
  shows "qs ! k > 1/2"
proof -
  define d where "d = quantiles_divider_index qs"
  obtain q rest where qs: "qs = q # rest" using assms(1) by (cases qs) (auto simp: quantiles_configured_def)
  have srt: "sorted rest" and q: "q = 1/2" using assms(1) qs by (auto simp: quantiles_configured_def)
  have d1: "1 \<le> d" unfolding d_def using qs q by (intro divider_pos) auto
  have dk: "d \<le> k" "k < length qs" "d < length qs" using assms by (auto simp: d_def)
  have "qs ! d > 1/2" unfolding d_def using dk(3) by (intro at_divider) (simp add: d_def)
  moreover have "qs ! d \<le> qs ! k"
  proof -
    have "rest ! (d - 1) \<le> rest ! (k - 1)"
      using srt d1 dk qs by (intro sorted_nth_mono) auto
    then show ?thesis using d1 dk qs by (auto simp: nth_Cons')
  qed
  ultimately show ?thesis by simp
qed

lemma tail_order:
  assumes "quantiles_configured qs" "1 \<le> i" "i < length qs" "1 \<le> j" "j < length qs" "qs ! i < qs ! j"
  shows "i < j"
proof (rule ccontr)
  assume "\<not> i < j"
  then have ji: "j \<le> i" by simp
  obtain q rest where qs: "qs = q # rest" using assms(1) by (cases qs) (auto simp: quantiles_configured_def)
  have srt: "sorted rest" using assms(1) qs by (auto simp: quantiles_configured_def)
  have "rest ! (j - 1) \<le> rest ! (i - 1)"
    using srt ji assms qs by (intro sorted_nth_mono) auto
  then have "qs ! j \<le> qs ! i" using assms qs by (auto simp: nth_Cons')
  with assms(6) show False by simp
qed

lemma row_non_crossing:
  assumes cfg: "quantiles_configured qs" and len: "length r = length qs"
  shows "non_crossing qs (fst (spec_row_result qs True r))"
proof -
  define d where "d = quantiles_divider_index qs"
  define m where "m = r ! 0"
  define lo where "lo = rev (spec_running_max 0 (rev (take (d - 1) (drop 1 r))))"
  define up where "up = spec_running_max 0 (drop d r)"
  define out where "out = fst (spec_row_result qs True r)"
  have qs: "qs \<noteq> []" "hd qs = 1/2" using cfg by (auto simp: quantiles_configured_def)
  have d1: "1 \<le> d" unfolding d_def using qs by (intro divider_pos) auto
  have dn: "d \<le> length r" unfolding d_def len by (rule divider_le_length)
  have lenlo: "length lo = d - 1" using dn by (simp add: lo_def)
  have lenup: "length up = length r - d" by (simp add: up_def)
  have c: "spec_clamped_offsets d r = m # lo @ up"
    by (simp add: spec_clamped_offsets_def lo_def up_def m_def)
  have out: "out = m # map (\<lambda>x. - x + m) lo @ map (\<lambda>x. x + m) up"
    unfolding out_def spec_row_result_def Let_def d_def [symmetric] c
    using d1 lenlo by (cases d) (simp_all add: spec_absolute_quantiles_def)
  have out0: "out ! 0 = m" by (simp add: out)
  have outlo: "out ! k = m - lo ! (k - 1)" if "1 \<le> k" "k < d" for k
    using that lenlo by (auto simp: out nth_Cons' nth_append)
  have outup: "out ! k = up ! (k - d) + m" if "d \<le> k" "k < length r" for k
    using that lenlo lenup d1 by (auto simp: out nth_Cons' nth_append)
  have lo0: "0 \<le> lo ! k" if "k < d - 1" for k
  proof -
    have "lo ! k \<in> set lo" using that lenlo by simp
    then have "lo ! k \<in> set (spec_running_max 0 (rev (take (d - 1) (drop 1 r))))"
      by (simp add: lo_def)
    then show ?thesis using spec_running_max_ge_all by blast
  qed
  have up0: "0 \<le> up ! k" if "k < length r - d" for k
  proof -
    have "up ! k \<in> set (spec_running_max 0 (drop d r))" using that lenup by (simp add: up_def)
    then show ?thesis using spec_running_max_ge_all by blast
  qed
  have lomono: "lo ! k' \<le> lo ! k" if "k \<le> k'" "k' < d - 1" for k k'
  proof -
    have "sorted (rev lo)" by (simp add: lo_def sorted_spec_running_max)
    then show ?thesis using that lenlo by (intro sorted_rev_nth_mono) simp_all
  qed
  have upmono: "up ! k \<le> up ! k'" if "k \<le> k'" "k' < length r - d" for k k'
    using that lenup sorted_spec_running_max [of 0 "drop d r"]
    unfolding up_def [symmetric] by (intro sorted_nth_mono) simp_all
  have "out ! i \<le> out ! j" if ij: "i < length qs" "j < length qs" "qs ! i < qs ! j" for i j
  proof -
    have qlo: "qs ! k \<le> 1/2" if "k < d" for k using that below_divider by (simp add: d_def)
    have qup: "qs ! k > 1/2" if "d \<le> k" "k < length qs" for k
      using that above_divider [OF cfg] by (simp add: d_def)
    have q0: "qs ! 0 = 1/2" using qs by (cases qs) auto
    consider (ilo) "i < d" "j < d" | (mix) "i < d" "d \<le> j" | (bad) "d \<le> i" "j < d" | (iup) "d \<le> i" "d \<le> j"
      by linarith
    then show ?thesis
    proof cases
      case ilo
      show ?thesis
      proof (cases "i = 0")
        case True
        have "j \<noteq> 0"
        proof
          assume "j = 0"
          with True ij(3) show False by simp
        qed
        have "qs ! j \<le> 1/2" using qlo ilo by simp
        moreover have "qs ! 0 < qs ! j" using True ij(3) by simp
        ultimately show ?thesis using q0 by linarith
      next
        case False
        show ?thesis
        proof (cases "j = 0")
          case True
          have "out ! i = m - lo ! (i - 1)" using False ilo by (intro outlo) simp_all
          moreover have "0 \<le> lo ! (i - 1)" using False ilo by (intro lo0) simp
          moreover have "out ! j = m" using True out0 by simp
          ultimately show ?thesis by linarith
        next
          case j: False
          have "i < j" by (rule tail_order [OF cfg _ ij(1) _ ij(2) ij(3)]) (use False j in simp_all)
          then have "lo ! (j - 1) \<le> lo ! (i - 1)" using False ilo by (intro lomono) simp_all
          moreover have "out ! i = m - lo ! (i - 1)" using False ilo by (intro outlo) simp_all
          moreover have "out ! j = m - lo ! (j - 1)" using j ilo by (intro outlo) simp_all
          ultimately show ?thesis by linarith
        qed
      qed
    next
      case mix
      have j: "out ! j = up ! (j - d) + m" "0 \<le> up ! (j - d)"
        using mix ij len by (simp_all add: outup up0)
      show ?thesis
      proof (cases "i = 0")
        case True
        then have "out ! i = m" using out0 by simp
        then show ?thesis using j by linarith
      next
        case False
        have "out ! i = m - lo ! (i - 1)" using False mix by (intro outlo) simp_all
        moreover have "0 \<le> lo ! (i - 1)" using False mix by (intro lo0) simp
        ultimately show ?thesis using j by linarith
      qed
    next
      case bad
      have "qs ! j \<le> 1/2" using bad qlo by simp
      moreover have "qs ! i > 1/2" using bad ij qup by simp
      ultimately show ?thesis using ij(3) by linarith
    next
      case iup
      have "i < j" by (rule tail_order [OF cfg _ ij(1) _ ij(2) ij(3)]) (use iup d1 in simp_all)
      then have "up ! (i - d) \<le> up ! (j - d)" using iup ij len by (intro upmono) simp_all
      moreover have "out ! i = up ! (i - d) + m" using iup ij len by (intro outup) simp_all
      moreover have "out ! j = up ! (j - d) + m" using iup ij len by (intro outup) simp_all
      ultimately show ?thesis by linarith
    qed
  qed
  then show ?thesis unfolding non_crossing_def out_def by blast
qed

lemma predict_mode_of_simps [simp]:
  "predict_mode_of Train = False" "md \<noteq> Train \<Longrightarrow> predict_mode_of md = True"
  by (simp_all add: predict_mode_of_def)

lemma train_crossing_example:
  "compute_quantile_forecasts_from_diffs [1/2, 1/10, 3/10, 7/10, 9/10] [[[1, 3, -2, -1, 2]]] False
     = Inr ([[[1, -2, 3, 0, 3]]], [[[1, 3, -2, -1, 2]]])"
  by (simp add: compute_quantile_forecasts_from_diffs_def quantile_forecasts_row_def
      quantiles_divider_index_def detach_def Let_def)

lemma predict_example:
  "compute_quantile_forecasts_from_diffs [1/2, 1/10, 3/10, 7/10, 9/10] [[[1, 3, -2, -1, 2]]] True
     = Inr ([[[1, -2, 1, 1, 3]]], [[[1, 3, 0, 0, 2]]])"
  by (simp add: compute_quantile_forecasts_from_diffs_def quantile_forecasts_row_def
      quantiles_divider_index_def clamp_upper_def clamp_lower_def detach_def Let_def upt_rec)

lemma example_configured: "quantiles_configured [1/2, 1/10, 3/10, 7/10, 9/10]"
  by (simp add: quantiles_configured_def)

lemma example_shape: "has_shape 1 1 (length [1/2, 1/10, 3/10, 7/10, 9/10 :: real]) [[[1, 3, -2, -1, 2]]]"
  by (simp add: has_shape_def)

text \<open>
  Claim C1.  In a mode other than train, for a configured quantile list of more than one
  quantile and an input whose last dimension is the number of quantiles, the call returns
  and at every (batch, horizon) position the output values do not cross: they are
  non-decreasing in the order of the quantiles.  In train mode there is an input for which
  they do cross.
\<close>

theorem quantile_monotonicity_predict_only:
  "(quantiles_configured qs \<and> 1 < length qs \<and> has_shape B H (length qs) dfs \<and> md \<noteq> Train \<longrightarrow>
      (\<exists>out dfs'. compute_quantile_forecasts_from_diffs qs dfs (predict_mode_of md) = Inr (out, dfs')
          \<and> has_shape B H (length qs) out
          \<and> (\<forall>b<B. \<forall>h<H. non_crossing qs (out ! b ! h))))
   \<and> (\<exists>qs dfs out dfs'. quantiles_configured qs \<and> 1 < length qs \<and> has_shape 1 1 (length qs) dfs
          \<and> compute_quantile_forecasts_from_diffs qs dfs (predict_mode_of Train) = Inr (out, dfs')
          \<and> \<not> non_crossing qs (out ! 0 ! 0))"
proof (intro conjI impI)
  assume a: "quantiles_configured qs \<and> 1 < length qs \<and> has_shape B H (length qs) dfs \<and> md \<noteq> Train"
  then have cfg: "quantiles_configured qs" and n: "1 < length qs"
    and sh: "has_shape B H (length qs) dfs" and pm: "predict_mode_of md = True"
    by simp_all
  have hd: "hd qs \<le> 1/2" using cfg by (simp add: quantiles_configured_def)
  let ?out = "map (map (fst \<circ> spec_row_result qs True)) dfs"
  have d1: "1 \<le> quantiles_divider_index qs" using n hd by (intro divider_pos) auto
  have eq: "compute_quantile_forecasts_from_diffs qs dfs (predict_mode_of md)
              = Inr (?out, map (map (snd \<circ> spec_row_result qs True)) dfs)"
    unfolding pm by (rule compute_spec [OF n hd sh])
  have len: "length (fst (spec_row_result qs True r)) = length qs" if "length r = length qs" for r
    using that d1 divider_le_length [of qs]
    by (simp add: spec_row_result_def Let_def length_spec_absolute_quantiles length_spec_clamped_offsets)
  have shape: "has_shape B H (length qs) ?out"
    using has_shape_map [OF sh, of "fst \<circ> spec_row_result qs True"] len by simp
  have mono: "non_crossing qs (?out ! b ! h)" if "b < B" "h < H" for b h
  proof -
    have "length (dfs ! b ! h) = length qs" by (rule has_shape_nth [OF sh that])
    then have "non_crossing qs (fst (spec_row_result qs True (dfs ! b ! h)))"
      by (rule row_non_crossing [OF cfg])
    then show ?thesis using that has_shape_dims [OF sh] by simp
  qed
  show "\<exists>out dfs'. compute_quantile_forecasts_from_diffs qs dfs (predict_mode_of md) = Inr (out, dfs')
          \<and> has_shape B H (length qs) out \<and> (\<forall>b<B. \<forall>h<H. non_crossing qs (out ! b ! h))"
  proof (intro exI conjI allI impI)
    show "compute_quantile_forecasts_from_diffs qs dfs (predict_mode_of md)
              = Inr (?out, map (map (snd \<circ> spec_row_result qs True)) dfs)" by (rule eq)
    show "has_shape B H (length qs) ?out" by (rule shape)
    show "non_crossing qs (?out ! b ! h)" if "b < B" "h < H" for b h by (rule mono [OF that])
  qed
next
  let ?qs = "[1/2, 1/10, 3/10, 7/10, 9/10] :: real list"
  have "\<not> non_crossing ?qs [1, -2, 3, 0, 3]"
  proof
    assume nc: "non_crossing ?qs [1, -2, 3, 0, 3]"
    from nc [unfolded non_crossing_def, rule_format, of 2 3] show False by simp
  qed
  then show "\<exists>qs dfs out dfs'. quantiles_configured qs \<and> 1 < length qs \<and> has_shape 1 1 (length qs) dfs
          \<and> compute_quantile_forecasts_from_diffs qs dfs (predict_mode_of Train) = Inr (out, dfs')
          \<and> \<not> non_crossing qs (out ! 0 ! 0)"
    using example_configured example_shape train_crossing_example
    by (intro exI [of _ ?qs] exI [of _ "[[[1, 3, -2, -1, 2]]]"] exI [of _ "[[[1, -2, 3, 0, 3]]]"]) simp
qed

text \<open>
  The layout matters: for a list in ascending order with the median in the middle, channel
  0 is still taken as the median, and the values cross in predict mode too.
\<close>

lemma ascending_layout_crosses:
  "compute_quantile_forecasts_from_diffs [1/10, 1/2, 9/10] [[[1, 2, 3]]] True
     = Inr ([[[1, -1, 4]]], [[[1, 2, 3]]])
   \<and> \<not> non_crossing [1/10, 1/2, 9/10] [1, -1, 4]"
proof -
  have "\<not> non_crossing [1/10, 1/2, 9/10] [1, -1, 4]"
  proof
    assume c: "non_crossing [1/10, 1/2, 9/10] [1, -1, 4]"
    from c [unfolded non_crossing_def, rule_format, of 0 1] show False by simp
  qed
  then show ?thesis
    by (simp add: compute_quantile_forecasts_from_diffs_def quantile_forecasts_row_def
        quantiles_divider_index_def clamp_upper_def clamp_lower_def detach_def Let_def upt_rec)
qed

text \<open>The theorem of claim C1 at a tensor of one position with five quantiles.\<close>

theorem quantile_monotonicity_predict_only_witness:
  "quantiles_configured [1/2, 1/10, 3/10, 7/10, 9/10]
   \<and> has_shape 1 1 5 [[[1, 3, -2, -1, 2]]]
   \<and> compute_quantile_forecasts_from_diffs [1/2, 1/10, 3/10, 7/10, 9/10] [[[1, 3, -2, -1, 2]]]
         (predict_mode_of Predict) = Inr ([[[1, -2, 1, 1, 3]]], [[[1, 3, 0, 0, 2]]])
   \<and> non_crossing [1/2, 1/10, 3/10, 7/10, 9/10] [1, -2, 1, 1, 3]
   \<and> \<not> non_crossing [1/2, 1/10, 3/10, 7/10, 9/10] [1, -2, 3, 0, 3]"
proof -
  let ?qs = "[1/2, 1/10, 3/10, 7/10, 9/10] :: real list"
  let ?dfs = "[[[1, 3, -2, -1, 2]]] :: tensor"
  have h: "quantiles_configured ?qs \<and> 1 < length ?qs \<and> has_shape 1 1 (length ?qs) ?dfs \<and> Predict \<noteq> Train"
    by (simp add: quantiles_configured_def has_shape_def)
  have ev: "compute_quantile_forecasts_from_diffs ?qs ?dfs (predict_mode_of Predict)
              = Inr ([[[1, -2, 1, 1, 3]]], [[[1, 3, 0, 0, 2]]])"
    by (simp add: predict_example)
  from quantile_monotonicity_predict_only [of ?qs 1 1 ?dfs Predict] h
  obtain out dfs' where
    o: "compute_quantile_forecasts_from_diffs ?qs ?dfs (predict_mode_of Predict) = Inr (out, dfs')"
    and nc: "\<forall>b<1. \<forall>h<1. non_crossing ?qs (out ! b ! h)"
    by blast
  from o ev have "out = [[[1, -2, 1, 1, 3]]]" by simp
  with nc have nc1: "non_crossing ?qs [1, -2, 1, 1, 3]" by simp
  have nc2: "\<not> non_crossing ?qs [1, -2, 3, 0, 3]"
  proof
    assume c: "non_crossing ?qs [1, -2, 3, 0, 3]"
    from c [unfolded non_crossing_def, rule_format, of 2 3] show False by simp
  qed
  have c1: "quantiles_configured ?qs" using h by simp
  have c2: "has_shape 1 1 5 ?dfs" by (simp add: has_shape_def)
  show ?thesis by (intro conjI) (rule c1, rule c2, rule ev, rule nc1, rule nc2)
qed

text \<open>
  Claim C10.  In a mode other than train and with more than one quantile, the input tensor
  after the call holds, at every position, the median unchanged and the clamped offsets
  in the other channels, and the output is computed from these; with at most one
  quantile, or in train mode, the input tensor is as it was; and there is an input that a
  call in predict mode does change.
\<close>

theorem reconciliation_mutates_input:
  "(1 < length qs \<and> hd qs \<le> 1/2 \<and> has_shape B H (length qs) dfs \<and> md \<noteq> Train \<longrightarrow>
      (\<exists>out dfs'. compute_quantile_forecasts_from_diffs qs dfs (predict_mode_of md) = Inr (out, dfs')
         \<and> dfs' = map (map (spec_clamped_offsets (quantiles_divider_index qs))) dfs
         \<and> out = map (map (spec_absolute_quantiles (quantiles_divider_index qs))) dfs'
         \<and> (\<forall>b<B. \<forall>h<H. dfs' ! b ! h ! 0 = dfs ! b ! h ! 0)))
   \<and> (length qs \<le> 1 \<or> (md = Train \<and> hd qs \<le> 1/2 \<and> has_shape B H (length qs) dfs) \<longrightarrow>
        (\<exists>out. compute_quantile_forecasts_from_diffs qs dfs (predict_mode_of md) = Inr (out, dfs)))
   \<and> (\<exists>qs dfs out dfs'. quantiles_configured qs \<and> 1 < length qs \<and> has_shape 1 1 (length qs) dfs
          \<and> compute_quantile_forecasts_from_diffs qs dfs (predict_mode_of Predict) = Inr (out, dfs')
          \<and> dfs' \<noteq> dfs)"
proof (intro conjI impI)
  assume a: "1 < length qs \<and> hd qs \<le> 1/2 \<and> has_shape B H (length qs) dfs \<and> md \<noteq> Train"
  then have n: "1 < length qs" and hd: "hd qs \<le> 1/2"
    and sh: "has_shape B H (length qs) dfs" and pm: "predict_mode_of md = True"
    by simp_all
  define d where "d = quantiles_divider_index qs"
  have eq: "compute_quantile_forecasts_from_diffs qs dfs (predict_mode_of md)
              = Inr (map (map (fst \<circ> spec_row_result qs True)) dfs,
                     map (map (snd \<circ> spec_row_result qs True)) dfs)"
    unfolding pm by (rule compute_spec [OF n hd sh])
  have s: "snd \<circ> spec_row_result qs True = spec_clamped_offsets d"
    by (rule ext) (simp add: spec_row_result_def Let_def d_def)
  have f: "fst \<circ> spec_row_result qs True = spec_absolute_quantiles d \<circ> spec_clamped_offsets d"
    by (rule ext) (simp add: spec_row_result_def Let_def d_def)
  have med: "map (map (spec_clamped_offsets d)) dfs ! b ! h ! 0 = dfs ! b ! h ! 0" if "b < B" "h < H" for b h
    using that has_shape_dims [OF sh] by (simp add: spec_clamped_offsets_def)
  show "\<exists>out dfs'. compute_quantile_forecasts_from_diffs qs dfs (predict_mode_of md) = Inr (out, dfs')
         \<and> dfs' = map (map (spec_clamped_offsets (quantiles_divider_index qs))) dfs
         \<and> out = map (map (spec_absolute_quantiles (quantiles_divider_index qs))) dfs'
         \<and> (\<forall>b<B. \<forall>h<H. dfs' ! b ! h ! 0 = dfs ! b ! h ! 0)"
    unfolding d_def [symmetric] eq s f using med by simp
next
  assume a: "length qs \<le> 1 \<or> (md = Train \<and> hd qs \<le> 1/2 \<and> has_shape B H (length qs) dfs)"
  show "\<exists>out. compute_quantile_forecasts_from_diffs qs dfs (predict_mode_of md) = Inr (out, dfs)"
  proof (cases "length qs \<le> 1")
    case True
    then show ?thesis by (simp add: compute_quantile_forecasts_from_diffs_def)
  next
    case False
    with a have n: "1 < length qs" and hd: "hd qs \<le> 1/2"
      and sh: "has_shape B H (length qs) dfs" and pm: "predict_mode_of md = False"
      by simp_all
    have s: "snd \<circ> spec_row_result qs False = id"
      by (rule ext) (simp add: spec_row_result_def Let_def)
    show ?thesis unfolding pm compute_spec [OF n hd sh] s by simp
  qed
next
  let ?qs = "[1/2, 1/10, 3/10, 7/10, 9/10] :: real list"
  show "\<exists>qs dfs out dfs'. quantiles_configured qs \<and> 1 < length qs \<and> has_shape 1 1 (length qs) dfs
          \<and> compute_quantile_forecasts_from_diffs qs dfs (predict_mode_of Predict) = Inr (out, dfs')
          \<and> dfs' \<noteq> dfs"
    using example_configured example_shape predict_example
    by (intro exI [of _ ?qs] exI [of _ "[[[1, 3, -2, -1, 2]]]"] exI [of _ "[[[1, -2, 1, 1, 3]]]"]
          exI [of _ "[[[1, 3, 0, 0, 2]]]"]) simp
qed

text \<open>The theorem of claim C7 at the same tensor, in predict mode and in train mode.\<close>

theorem median_invariance_witness:
  "(length [1/2, 1/10, 3/10, 7/10, 9/10 :: real] \<le> 1 \<or> hd [1/2, 1/10, 3/10, 7/10, 9/10 :: real] \<le> 1/2)
   \<and> has_shape 1 1 5 [[[1, 3, -2, -1, 2]]]
   \<and> (\<exists>out dfs'. compute_quantile_forecasts_from_diffs [1/2, 1/10, 3/10, 7/10, 9/10]
                     [[[1, 3, -2, -1, 2]]] (predict_mode_of Predict) = Inr (out, dfs')
          \<and> out ! 0 ! 0 ! 0 = 1)
   \<and> (\<exists>out dfs'. compute_quantile_forecasts_from_diffs [1/2, 1/10, 3/10, 7/10, 9/10]
                     [[[1, 3, -2, -1, 2]]] (predict_mode_of Train) = Inr (out, dfs')
          \<and> out ! 0 ! 0 ! 0 = 1)"
proof -
  let ?qs = "[1/2, 1/10, 3/10, 7/10, 9/10] :: real list"
  let ?dfs = "[[[1, 3, -2, -1, 2]]] :: tensor"
  have h1: "length ?qs \<le> 1 \<or> hd ?qs \<le> 1/2" by simp
  have h2: "has_shape 1 1 (length ?qs) ?dfs" by (simp add: has_shape_def)
  have h3: "has_shape 1 1 5 ?dfs" by (simp add: has_shape_def)
  have p: "\<exists>out dfs'. compute_quantile_forecasts_from_diffs ?qs ?dfs (predict_mode_of md) = Inr (out, dfs')
             \<and> out ! 0 ! 0 ! 0 = 1" for md
    using median_invariance [OF h1 h2, of md] by auto
  show ?thesis by (intro conjI) (rule h1, rule h3, rule p, rule p)
qed

text \<open>The theorem of claim C8 at the quantile list of a point forecast.\<close>

theorem single_quantile_identity_witness:
  "length [1/2 :: real] = 1
   \<and> compute_quantile_forecasts_from_diffs [1/2] [[[3], [-1]]] True = Inr ([[[3], [-1]]], [[[3], [-1]]])
   \<and> compute_quantile_forecasts_from_diffs [1/2] [[[3], [-1]]] False = Inr ([[[3], [-1]]], [[[3], [-1]]])"
proof -
  have h: "length [1/2 :: real] = 1" by simp
  show ?thesis
    using h single_quantile_identity [OF h, of "[[[3], [-1]]]" True]
      single_quantile_identity [OF h, of "[[[3], [-1]]]" False]
    by (intro conjI)
qed

text \<open>
  The theorem of claim C10 at the same tensor: in predict mode the offsets 3, -2, -1, 2 of
  the input become 3, 0, 0, 2; in train mode they stay.
\<close>

theorem reconciliation_mutates_input_witness:
  "(1 < length [1/2, 1/10, 3/10, 7/10, 9/10 :: real] \<and> hd [1/2, 1/10, 3/10, 7/10, 9/10 :: real] \<le> 1/2
    \<and> has_shape 1 1 5 [[[1, 3, -2, -1, 2]]] \<and> Predict \<noteq> Train)
   \<and> (\<exists>out. compute_quantile_forecasts_from_diffs [1/2, 1/10, 3/10, 7/10, 9/10]
                 [[[1, 3, -2, -1, 2]]] (predict_mode_of Predict) = Inr (out, [[[1, 3, 0, 0, 2]]]))
   \<and> (\<exists>out. compute_quantile_forecasts_from_diffs [1/2, 1/10, 3/10, 7/10, 9/10]
                 [[[1, 3, -2, -1, 2]]] (predict_mode_of Train) = Inr (out, [[[1, 3, -2, -1, 2]]]))"
proof -
  let ?qs = "[1/2, 1/10, 3/10, 7/10, 9/10] :: real list"
  let ?dfs = "[[[1, 3, -2, -1, 2]]] :: tensor"
  have sh: "has_shape 1 1 (length ?qs) ?dfs" by (simp add: has_shape_def)
  have h1: "1 < length ?qs \<and> hd ?qs \<le> 1/2 \<and> has_shape 1 1 (length ?qs) ?dfs \<and> Predict \<noteq> Train"
    using sh by simp
  have h1': "1 < length ?qs \<and> hd ?qs \<le> 1/2 \<and> has_shape 1 1 5 ?dfs \<and> Predict \<noteq> Train"
    by (simp add: has_shape_def)
  have h2: "length ?qs \<le> 1 \<or> (Train = Train \<and> hd ?qs \<le> 1/2 \<and> has_shape 1 1 (length ?qs) ?dfs)"
    using sh by simp
  have d: "quantiles_divider_index ?qs = 3" by (simp add: quantiles_divider_index_def)
  have c: "map (map (spec_clamped_offsets (quantiles_divider_index ?qs))) ?dfs = [[[1, 3, 0, 0, 2]]]"
    unfolding d by (simp add: spec_clamped_offsets_def)
  from reconciliation_mutates_input [of ?qs 1 1 ?dfs Predict] h1
  have p: "\<exists>out. compute_quantile_forecasts_from_diffs ?qs ?dfs (predict_mode_of Predict)
                 = Inr (out, [[[1, 3, 0, 0, 2]]])"
    unfolding c by blast
  from reconciliation_mutates_input [of ?qs 1 1 ?dfs Train] h2
  have t: "\<exists>out. compute_quantile_forecasts_from_diffs ?qs ?dfs (predict_mode_of Train) = Inr (out, ?dfs)"
    by blast
  show ?thesis by (rule conjI [OF h1' conjI [OF p t]])
qed

section \<open>Properties of the sample weight and of the elementwise operations\<close>

lemma weight_before_start:
  assumes "start_t < 1" "t \<le> start_t"
  shows "time_based_sample_weight end_w start_t t = 1 / end_w"
proof -
  have "(t - start_t) / (1 - start_t) \<le> 0"
    using assms by (simp add: divide_le_0_iff)
  then have "min (max ((t - start_t) / (1 - start_t)) 0) 1 = 0" by simp
  then show ?thesis
    by (simp add: time_based_sample_weight_def detach_def Let_def)
qed

lemma weight_at_end:
  assumes "start_t < 1" "1 \<le> t"
  shows "time_based_sample_weight end_w start_t t = (if end_w = 0 then 0 else 1)"
proof -
  have "1 \<le> (t - start_t) / (1 - start_t)"
    using assms by (simp add: le_divide_eq)
  then have "min (max ((t - start_t) / (1 - start_t)) 0) 1 = 1" by simp
  then show ?thesis
    by (simp add: time_based_sample_weight_def detach_def Let_def)
qed

lemma half_cosine_range: "0 \<le> spec_half_cosine x \<and> spec_half_cosine x \<le> 1"
proof -
  have "-1 \<le> cos (pi * (x - 1))" "cos (pi * (x - 1)) \<le> 1" by simp_all
  then show ?thesis unfolding spec_half_cosine_def by linarith
qed

lemma half_cosine_mono:
  assumes "0 \<le> x" "x \<le> y" "y \<le> 1"
  shows "spec_half_cosine x \<le> spec_half_cosine y"
proof -
  have "cos (pi * (x - 1)) \<le> cos (pi * (y - 1))"
  proof (rule cos_monotone_minus_pi_0')
    show "- pi \<le> pi * (x - 1)" using assms by (simp add: algebra_simps)
    show "pi * (x - 1) \<le> pi * (y - 1)" using assms by simp
    show "pi * (y - 1) \<le> 0" using assms by (simp add: mult_le_0_iff)
  qed
  then show ?thesis unfolding spec_half_cosine_def by linarith
qed

lemma weight_eq:
  "time_based_sample_weight end_w start_t t
     = (1 + spec_half_cosine (min (max ((t - start_t) / (1 - start_t)) 0) 1) * (end_w - 1)) / end_w"
  by (simp add: time_based_sample_weight_def detach_def Let_def spec_half_cosine_def)

lemma weight_bounds:
  assumes "1 < end_w"
  shows "1 / end_w \<le> time_based_sample_weight end_w start_t t"
    and "time_based_sample_weight end_w start_t t \<le> 1"
proof -
  define c where "c = spec_half_cosine (min (max ((t - start_t) / (1 - start_t)) 0) 1)"
  define e where "e = end_w - 1"
  have c: "0 \<le> c" "c \<le> 1" using half_cosine_range by (simp_all add: c_def)
  have e: "0 \<le> e" "end_w = 1 + e" using assms by (simp_all add: e_def)
  have w: "time_based_sample_weight end_w start_t t = (1 + c * e) / end_w"
    by (simp add: weight_eq c_def e_def)
  have lo: "0 \<le> c * e" using c e by simp
  have "c * e \<le> 1 * e" using c e by (intro mult_right_mono) simp_all
  then have hi: "1 + c * e \<le> end_w" using e by simp
  show "1 / end_w \<le> time_based_sample_weight end_w start_t t"
    unfolding w using assms lo by (simp add: divide_le_cancel)
  show "time_based_sample_weight end_w start_t t \<le> 1"
    unfolding w using assms hi by (simp add: divide_le_eq)
qed

lemma weight_mono:
  assumes "1 < end_w" "start_t < 1" "t \<le> t'"
  shows "time_based_sample_weight end_w start_t t \<le> time_based_sample_weight end_w start_t t'"
proof -
  define x where "x = min (max ((t - start_t) / (1 - start_t)) 0) 1"
  define y where "y = min (max ((t' - start_t) / (1 - start_t)) 0) 1"
  have "(t - start_t) / (1 - start_t) \<le> (t' - start_t) / (1 - start_t)"
    using assms by (simp add: divide_right_mono)
  then have xy: "0 \<le> x" "x \<le> y" "y \<le> 1" by (simp_all add: x_def y_def)
  have "spec_half_cosine x * (end_w - 1) \<le> spec_half_cosine y * (end_w - 1)"
    using half_cosine_mono [OF xy] assms by (intro mult_right_mono) simp_all
  then show ?thesis
    unfolding weight_eq x_def [symmetric] y_def [symmetric] using assms
    by (simp add: divide_le_cancel)
qed

lemma collect_map2_Inr:
  assumes "\<And>x y. (x, y) \<in> set (zip xs ys) \<Longrightarrow> f x y = Inr (g x y)"
  shows "collect (map2 f xs ys) = Inr (map2 g xs ys)"
proof -
  have "collect (map (\<lambda>(x, y). f x y) (zip xs ys)) = Inr (map (\<lambda>(x, y). g x y) (zip xs ys))"
    by (rule collect_map_Inr) (use assms in auto)
  then show ?thesis by simp
qed

lemma bc_same:
  assumes "length xs = length ys"
    and "\<And>x y. (x, y) \<in> set (zip xs ys) \<Longrightarrow> f x y = Inr (g x y)"
  shows "bc f xs ys = Inr (map2 g xs ys)"
  unfolding bc_def using assms(1) collect_map2_Inr [of xs ys f g, OF assms(2)] by simp

lemma bc_last_single:
  fixes f :: "'a \<Rightarrow> 'b \<Rightarrow> 'c"
  shows "bc (\<lambda>a b. Inr (f a b)) c [w] = Inr (map (\<lambda>x. f x w) c)"
proof (cases "length c = 1")
  case True
  then obtain x where "c = [x]" by (cases c) auto
  then show ?thesis by (simp add: bc_def)
next
  case False
  have "collect (map (\<lambda>x. Inr (f x w) :: error + 'c) c) = Inr (map (\<lambda>x. f x w) c)"
    by (rule collect_map_Inr) simp
  with False show ?thesis by (simp add: bc_def)
qed

lemma weighted_loss_pointwise:
  assumes w: "1 < newer_samples_weight (cfg_train m)"
    and sh: "has_shape B H Q loss"
    and tB: "length time = B"
    and tT: "\<And>b. b < B \<Longrightarrow> length (time ! b) = n_lags m + H"
  shows "\<exists>wl. weighted_loss m time loss = Inr wl \<and> has_shape B H Q wl
     \<and> (\<forall>b<B. \<forall>h<H. \<forall>q<Q. wl ! b ! h ! q = loss ! b ! h ! q
          * time_based_sample_weight (newer_samples_weight (cfg_train m))
              (newer_samples_start (cfg_train m)) (time ! b ! (n_lags m + h)))"
proof -
  define tw where "tw = time_based_sample_weight (newer_samples_weight (cfg_train m))
              (newer_samples_start (cfg_train m))"
  define W where "W = get_time_based_sample_weight (cfg_train m) (map (drop (n_lags m)) time)"
  define g3 where "g3 = (\<lambda>(c::real list) (ws::real list). map (\<lambda>x. x * hd ws) c)"
  define g2 where "g2 = (\<lambda>(r::real list list) (wr::real list list). map2 g3 r wr)"
  have lenB: "length loss = B" and lenH: "\<And>b. b < B \<Longrightarrow> length (loss ! b) = H"
    using has_shape_dims [OF sh] by simp_all
  have WB: "length W = B" by (simp add: W_def get_time_based_sample_weight_def tB)
  have Wb: "W ! b = map (\<lambda>x. [tw x]) (drop (n_lags m) (time ! b))" if "b < B" for b
    using that tB by (simp add: W_def get_time_based_sample_weight_def tw_def)
  have WH: "length (W ! b) = H" if "b < B" for b using that tT by (simp add: Wb)
  have Wbh: "W ! b ! h = [tw (time ! b ! (n_lags m + h))]" if "b < B" "h < H" for b h
    using that tT by (simp add: Wb)
  have inner: "bc (bc (\<lambda>a b. Inr (a * b))) r wr = Inr (g2 r wr)"
    if "(r, wr) \<in> set (zip loss W)" for r wr
  proof -
    from that obtain b where b: "b < B" "r = loss ! b" "wr = W ! b"
      using lenB WB by (auto simp: set_zip)
    have len: "length r = length wr" using b lenH WH by simp
    have "bc (\<lambda>a b. Inr (a * b)) c ws = Inr (g3 c ws)" if "(c, ws) \<in> set (zip r wr)" for c ws
    proof -
      from that obtain h where h: "h < H" "ws = wr ! h"
        using b lenH WH by (auto simp: set_zip)
      have "ws = [tw (time ! b ! (n_lags m + h))]" using h b Wbh by simp
      then show ?thesis by (simp add: bc_last_single g3_def)
    qed
    then show ?thesis unfolding g2_def by (rule bc_same [OF len])
  qed
  have eq: "tensor_op (*) loss W = Inr (map2 g2 loss W)"
    unfolding tensor_op_def using lenB WB by (intro bc_same inner) simp_all
  have wl: "weighted_loss m time loss = Inr (map2 g2 loss W)"
    using w eq by (simp add: weighted_loss_def W_def)
  have val: "map2 g2 loss W ! b ! h = map (\<lambda>x. x * tw (time ! b ! (n_lags m + h))) (loss ! b ! h)"
    if "b < B" "h < H" for b h
    using that lenB WB lenH WH Wbh by (simp add: g2_def g3_def)
  have shape: "has_shape B H Q (map2 g2 loss W)"
    unfolding has_shape_def list_all_length
  proof (intro conjI allI impI)
    show "length (map2 g2 loss W) = B" using lenB WB by simp
  next
    fix b assume "b < length (map2 g2 loss W)"
    then have b: "b < B" using lenB WB by simp
    then show "length (map2 g2 loss W ! b) = H" using lenB WB lenH WH by (simp add: g2_def)
  next
    fix b h assume "b < length (map2 g2 loss W)" "h < length (map2 g2 loss W ! b)"
    then have bh: "b < B" "h < H" using lenB WB lenH WH by (simp_all add: g2_def)
    then show "length (map2 g2 loss W ! b ! h) = Q"
      using val [OF bh] has_shape_nth [OF sh bh] by simp
  qed
  have pt: "map2 g2 loss W ! b ! h ! q = loss ! b ! h ! q * tw (time ! b ! (n_lags m + h))"
    if "b < B" "h < H" "q < Q" for b h q
    using that val [OF that(1,2)] has_shape_nth [OF sh that(1,2)] by simp
  show ?thesis unfolding tw_def [symmetric]
  proof (intro exI conjI allI impI)
    show "weighted_loss m time loss = Inr (map2 g2 loss W)" by (rule wl)
    show "has_shape B H Q (map2 g2 loss W)" by (rule shape)
    show "map2 g2 loss W ! b ! h ! q = loss ! b ! h ! q * tw (time ! b ! (n_lags m + h))"
      if "b < B" "h < H" "q < Q" for b h q by (rule pt [OF that])
  qed
qed

text \<open>
  Claim C5, as amended.  For an end weight above 1 and a start below 1, the weight of a
  time step is 1 divided by the end weight at or before the start, 1 from time 1 on, and
  in between follows the half-cosine ramp; it lies between these two values and never
  decreases with time.  The loss at every position is multiplied by the weight of its
  time step, the same for all quantiles.
\<close>

theorem recency_weight:
  assumes "1 < newer_samples_weight (cfg_train m)"
    and "newer_samples_start (cfg_train m) < 1"
    and "has_shape B H Q loss"
    and "length time = B"
    and "\<forall>b<B. length (time ! b) = n_lags m + H"
  shows "(\<forall>t. (t \<le> newer_samples_start (cfg_train m) \<longrightarrow>
               time_based_sample_weight (newer_samples_weight (cfg_train m))
                 (newer_samples_start (cfg_train m)) t = 1 / newer_samples_weight (cfg_train m))
            \<and> (1 \<le> t \<longrightarrow>
               time_based_sample_weight (newer_samples_weight (cfg_train m))
                 (newer_samples_start (cfg_train m)) t = 1)
            \<and> time_based_sample_weight (newer_samples_weight (cfg_train m))
                 (newer_samples_start (cfg_train m)) t
               = (1 + spec_half_cosine (min (max ((t - newer_samples_start (cfg_train m))
                                                   / (1 - newer_samples_start (cfg_train m))) 0) 1)
                      * (newer_samples_weight (cfg_train m) - 1))
                 / newer_samples_weight (cfg_train m)
            \<and> 1 / newer_samples_weight (cfg_train m)
                 \<le> time_based_sample_weight (newer_samples_weight (cfg_train m))
                      (newer_samples_start (cfg_train m)) t
            \<and> time_based_sample_weight (newer_samples_weight (cfg_train m))
                 (newer_samples_start (cfg_train m)) t \<le> 1
            \<and> (\<forall>t'. t \<le> t' \<longrightarrow>
                 time_based_sample_weight (newer_samples_weight (cfg_train m))
                   (newer_samples_start (cfg_train m)) t
                 \<le> time_based_sample_weight (newer_samples_weight (cfg_train m))
                   (newer_samples_start (cfg_train m)) t'))
       \<and> (\<exists>wl. weighted_loss m time loss = Inr wl \<and> has_shape B H Q wl
            \<and> (\<forall>b<B. \<forall>h<H. \<forall>q<Q. wl ! b ! h ! q = loss ! b ! h ! q
                 * time_based_sample_weight (newer_samples_weight (cfg_train m))
                     (newer_samples_start (cfg_train m)) (time ! b ! (n_lags m + h))))"
proof (intro conjI allI)
  fix t
  show "t \<le> newer_samples_start (cfg_train m) \<longrightarrow>
               time_based_sample_weight (newer_samples_weight (cfg_train m))
                 (newer_samples_start (cfg_train m)) t = 1 / newer_samples_weight (cfg_train m)"
    using weight_before_start [OF assms(2)] by blast
  show "1 \<le> t \<longrightarrow>
               time_based_sample_weight (newer_samples_weight (cfg_train m))
                 (newer_samples_start (cfg_train m)) t = 1"
    using weight_at_end [OF assms(2), of t "newer_samples_weight (cfg_train m)"] assms(1) by simp
  show "time_based_sample_weight (newer_samples_weight (cfg_train m))
                 (newer_samples_start (cfg_train m)) t
               = (1 + spec_half_cosine (min (max ((t - newer_samples_start (cfg_train m))
                                                   / (1 - newer_samples_start (cfg_train m))) 0) 1)
                      * (newer_samples_weight (cfg_train m) - 1))
                 / newer_samples_weight (cfg_train m)"
    by (rule weight_eq)
  show "1 / newer_samples_weight (cfg_train m)
                 \<le> time_based_sample_weight (newer_samples_weight (cfg_train m))
                      (newer_samples_start (cfg_train m)) t"
    by (rule weight_bounds(1) [OF assms(1)])
  show "time_based_sample_weight (newer_samples_weight (cfg_train m))
                 (newer_samples_start (cfg_train m)) t \<le> 1"
    by (rule weight_bounds(2) [OF assms(1)])
  show "t \<le> t' \<longrightarrow>
                 time_based_sample_weight (newer_samples_weight (cfg_train m))
                   (newer_samples_start (cfg_train m)) t
                 \<le> time_based_sample_weight (newer_samples_weight (cfg_train m))
                   (newer_samples_start (cfg_train m)) t'" for t'
    using weight_mono [OF assms(1,2)] by blast
next
  show "\<exists>wl. weighted_loss m time loss = Inr wl \<and> has_shape B H Q wl
            \<and> (\<forall>b<B. \<forall>h<H. \<forall>q<Q. wl ! b ! h ! q = loss ! b ! h ! q
                 * time_based_sample_weight (newer_samples_weight (cfg_train m))
                     (newer_samples_start (cfg_train m)) (time ! b ! (n_lags m + h)))"
    using assms(5) by (intro weighted_loss_pointwise [OF assms(1) assms(3) assms(4)]) simp
qed

section \<open>Properties of the construction\<close>

lemma events_loop_raises:
  assumes "trend_is_none" "list_ex (\<lambda>(event, configs). event_mode configs = ''multiplicative'') dims"
  shows "events_loop trend_is_none dims st = Inl ValueError"
  using assms
proof (induction dims arbitrary: st)
  case Nil
  then show ?case by simp
next
  case (Cons ec dims)
  obtain event configs where ec: "ec = (event, configs)" by (cases ec)
  obtain seen n_add n_mul lg where st: "st = (seen, n_add, n_mul, lg)" by (cases st)
  show ?case
  proof (cases "event_mode configs = ''multiplicative''")
    case True
    then show ?thesis using Cons.prems(1) by (simp add: ec st)
  next
    case False
    then have "list_ex (\<lambda>(event, configs). event_mode configs = ''multiplicative'') dims"
      using Cons.prems(2) by (simp add: ec)
    then have "\<And>st. events_loop trend_is_none dims st = Inl ValueError"
      using Cons.IH Cons.prems(1) by blast
    then show ?thesis using False by (simp add: ec st Let_def)
  qed
qed

lemma events_loop_returns:
  assumes "\<not> (trend_is_none \<and> list_ex (\<lambda>(event, configs). event_mode configs = ''multiplicative'') dims)"
  shows "events_loop trend_is_none dims (seen, n_add, n_mul, lg)
           = Inr (seen @ map coerced dims,
                  n_add + sum_list (map (\<lambda>ec. length (event_indices (snd ec)))
                            (filter (\<lambda>ec. event_mode (snd ec) \<noteq> ''multiplicative'') dims)),
                  n_mul + sum_list (map (\<lambda>ec. length (event_indices (snd ec)))
                            (filter (\<lambda>ec. event_mode (snd ec) = ''multiplicative'') dims)),
                  lg @ map (\<lambda>ec. event_mode_message (event_mode (snd ec)))
                         (filter (\<lambda>ec. unknown_event_mode (snd ec)) dims))"
  using assms
proof (induction dims arbitrary: seen n_add n_mul lg)
  case Nil
  then show ?case by simp
next
  case (Cons ec dims)
  obtain event configs where ec: "ec = (event, configs)" by (cases ec)
  have rest: "\<not> (trend_is_none \<and> list_ex (\<lambda>(event, configs). event_mode configs = ''multiplicative'') dims)"
    using Cons.prems by auto
  note IH = Cons.IH [OF rest]
  consider (add) "event_mode configs = ''additive''"
    | (mul) "event_mode configs = ''multiplicative''"
    | (unk) "unknown_event_mode configs"
    by (auto simp: unknown_event_mode_def)
  then show ?case
  proof cases
    case add
    then have c: "coerced ec = ec" by (simp add: coerced_def unknown_event_mode_def ec)
    show ?thesis
      using IH [of "seen @ [ec]" "n_add + length (event_indices configs)" n_mul lg] add c
      by (simp add: ec unknown_event_mode_def)
  next
    case mul
    then have c: "coerced ec = ec" by (simp add: coerced_def unknown_event_mode_def ec)
    have nt: "\<not> trend_is_none" using Cons.prems mul by (simp add: ec)
    show ?thesis
      using IH [of "seen @ [ec]" n_add "n_mul + length (event_indices configs)" lg] mul c nt
      by (simp add: ec unknown_event_mode_def)
  next
    case unk
    then have c: "coerced ec = (event, configs\<lparr>event_mode := ''additive''\<rparr>)"
      by (simp add: coerced_def ec)
    show ?thesis
      using IH [of "seen @ [coerced ec]" "n_add + length (event_indices configs)" n_mul
                   "lg @ [event_mode_message (event_mode configs)]"]
        unk c
      by (simp add: ec unknown_event_mode_def Let_def)
  qed
qed

text \<open>
  Claim C6, with the proviso that the call supplies what the constructor reads without a
  test (the training configuration, metrics whose classes torchmetrics has, the
  future-regressor configuration, the layer list of the autoregression when there are
  lags, and the layer list of the lagged regressors when there are any).  For such a call the constructor raises exactly when the seasonality is
  multiplicative without a trend, or the seasonality mode is neither additive nor
  multiplicative, or an event is multiplicative without a trend, and the error is then a
  ValueError.  When it returns, every event of an unrecognized mode has been set to
  additive, the other events are as they were, and one message has been logged for each
  event of an unrecognized mode.
\<close>

theorem construction_errors:
  assumes "collaborators_supplied tm a"
  shows "((\<exists>e. init tm a = Inl e) \<longleftrightarrow>
            multiplicative_seasonality_without_trend a \<or> unknown_seasonality_mode a
            \<or> multiplicative_event_without_trend a)
     \<and> (\<forall>e. init tm a = Inl e \<longrightarrow> e = ValueError)
     \<and> (\<forall>r. init tm a = Inr r \<longrightarrow>
           res_events_dims r = map_option (map coerced) (arg_events_dims a)
         \<and> logged r = (case arg_events_dims a of
                          None \<Rightarrow> []
                        | Some dims \<Rightarrow> map (\<lambda>ec. event_mode_message (event_mode (snd ec)))
                                         (filter (\<lambda>ec. unknown_event_mode (snd ec)) dims)))"
proof -
  obtain ct where ct: "arg_config_train a = Some ct"
    using assms by (auto simp: collaborators_supplied_def)
  have ml: "\<not> metrics_lookup_fails tm a"
    using assms by (simp add: collaborators_supplied_def)
  obtain rc where rc: "arg_regressors_configured a = Some rc"
    using assms by (auto simp: collaborators_supplied_def)
  have ar: "\<not> (arg_n_lags a > 0 \<and> arg_ar_layers a = None)"
    using assms by (auto simp: collaborators_supplied_def)
  have lr: "\<not> (case arg_config_lagged_regressors a of
                None \<Rightarrow> False
              | Some lr \<Rightarrow> lagged_regressors_present lr \<and> lagged_layers lr = None)"
    using assms by (auto simp: collaborators_supplied_def split: option.splits)
  show ?thesis
  proof (cases "multiplicative_seasonality_without_trend a \<or> unknown_seasonality_mode a")
    case True
    then have "init tm a = Inl ValueError"
      using ml by (auto simp: init_def ct multiplicative_seasonality_without_trend_def
            unknown_seasonality_mode_def split: option.splits)
    then show ?thesis using True by auto
  next
    case False
    then have s1: "\<not> (case arg_config_seasonality a of None \<Rightarrow> False
              | Some cs \<Rightarrow> season_mode cs = ''multiplicative'' \<and> arg_config_trend a = None)"
      and s2: "\<not> (case arg_config_seasonality a of None \<Rightarrow> False
              | Some cs \<Rightarrow> season_mode cs \<notin> set [''additive'', ''multiplicative''])"
      by (auto simp: multiplicative_seasonality_without_trend_def unknown_seasonality_mode_def
            split: option.splits)
    show ?thesis
    proof (cases "arg_events_dims a")
      case None
      then have "init tm a = Inr \<lparr>res_events_dims = None, n_additive_event_params = 0,
                          n_multiplicative_event_params = 0, logged = []\<rparr>"
        using s1 s2 ar lr ml by (simp add: init_def ct rc)
      then show ?thesis using False None by (auto simp: multiplicative_event_without_trend_def)
    next
      case (Some dims)
      show ?thesis
      proof (cases "multiplicative_event_without_trend a")
        case True
        then have "events_loop (arg_config_trend a = None) dims ([], 0, 0, []) = Inl ValueError"
          using Some by (intro events_loop_raises) (simp_all add: multiplicative_event_without_trend_def)
        then have "init tm a = Inl ValueError"
          using s1 s2 ml Some by (simp add: init_def ct)
        then show ?thesis using True by auto
      next
        case nm: False
        then have "\<not> (arg_config_trend a = None
            \<and> list_ex (\<lambda>(event, configs). event_mode configs = ''multiplicative'') dims)"
          using Some by (simp add: multiplicative_event_without_trend_def)
        from events_loop_returns [OF this, of "[]" 0 0 "[]"]
        obtain n_add n_mul where
          "events_loop (arg_config_trend a = None) dims ([], 0, 0, [])
             = Inr (map coerced dims, n_add, n_mul,
                    map (\<lambda>ec. event_mode_message (event_mode (snd ec)))
                         (filter (\<lambda>ec. unknown_event_mode (snd ec)) dims))"
          by simp
        then have "init tm a = Inr \<lparr>res_events_dims = Some (map coerced dims),
                     n_additive_event_params = n_add, n_multiplicative_event_params = n_mul,
                     logged = map (\<lambda>ec. event_mode_message (event_mode (snd ec)))
                         (filter (\<lambda>ec. unknown_event_mode (snd ec)) dims)\<rparr>"
          using s1 s2 ar lr ml Some by (simp add: init_def ct rc)
        then show ?thesis using False nm Some by auto
      qed
    qed
  qed
qed

section \<open>Properties of the regularization and of the training step\<close>

lemma glocal_terms_eq:
  "glocal_terms m rv =
     (if trend_local_term_on m then [(TrendGlocal, val_reg_trend_glocal rv)] else [])
     @ (if seasonality_local_term_on m then [(SeasonalityGlocal, val_reg_seasonality_glocal rv)] else [])"
  by (auto simp: glocal_terms_def trend_local_term_on_def seasonality_local_term_on_def
        split: option.splits)

lemma delayed_terms_not_local:
  "delayed_terms m rv = Inr ts \<Longrightarrow> \<forall>x\<in>set ts. \<not> is_local_term (fst x)"
  by (auto simp: delayed_terms_def is_local_term_def Let_def split: option.splits if_splits)

text \<open>
  Claim C3.  When the delay weight is 0, \<open>_add_batch_regularizations\<close> returns, the
  terms it has added are the local terms of the trend and of the seasonality that are
  configured and no other, the regularization loss is the sum of these two terms, and it
  is zero when neither is configured.  It is the regularization loss that \<open>loss_func\<close>
  returns when the regularization is enabled outside the learning-rate search.
\<close>

theorem delay_weight_gating:
  assumes "get_reg_delay_weight (cfg_train m) progress = 0"
  shows "\<exists>reg_loss terms.
           add_batch_regularizations m rv loss progress = Inr (loss + reg_loss, reg_loss, terms)
         \<and> terms = glocal_terms m rv
         \<and> (\<forall>x\<in>set terms. is_local_term (fst x))
         \<and> reg_loss = (if trend_local_term_on m then val_reg_trend_glocal rv else 0)
                     + (if seasonality_local_term_on m then val_reg_seasonality_glocal rv else 0)
         \<and> (\<not> trend_local_term_on m \<and> \<not> seasonality_local_term_on m \<longrightarrow> reg_loss = 0)
         \<and> (\<forall>time predicted targets loss_w.
               reg_enabled m \<and> \<not> finding_lr m
               \<and> weighted_loss m time (loss_func_elementwise (cfg_train m) predicted targets) = Inr loss_w
               \<longrightarrow> loss_func m rv (Some progress) time predicted targets
                     = Inr (sum_dim2_mean loss_w + reg_loss, reg_loss))"
proof -
  define reg_loss where "reg_loss = (if trend_local_term_on m then val_reg_trend_glocal rv else 0)
                     + (if seasonality_local_term_on m then val_reg_seasonality_glocal rv else 0)"
  have r: "add_batch_regularizations m rv l progress = Inr (l + reg_loss, reg_loss, glocal_terms m rv)"
    for l
    using assms by (simp add: add_batch_regularizations_def Let_def glocal_terms_eq reg_loss_def)
  have t: "\<forall>x\<in>set (glocal_terms m rv). is_local_term (fst x)"
    by (auto simp: glocal_terms_eq is_local_term_def)
  have z: "\<not> trend_local_term_on m \<and> \<not> seasonality_local_term_on m \<longrightarrow> reg_loss = 0"
    by (simp add: reg_loss_def)
  have l: "loss_func m rv (Some progress) time predicted targets
             = Inr (sum_dim2_mean loss_w + reg_loss, reg_loss)"
    if "reg_enabled m \<and> \<not> finding_lr m
        \<and> weighted_loss m time (loss_func_elementwise (cfg_train m) predicted targets) = Inr loss_w"
    for time predicted targets loss_w
    using that by (simp add: loss_func_def Let_def r)
  show ?thesis
  proof (intro exI conjI)
    show "add_batch_regularizations m rv loss progress = Inr (loss + reg_loss, reg_loss, glocal_terms m rv)"
      by (rule r)
    show "glocal_terms m rv = glocal_terms m rv" by (rule refl)
    show "\<forall>x\<in>set (glocal_terms m rv). is_local_term (fst x)" by (rule t)
    show "reg_loss = (if trend_local_term_on m then val_reg_trend_glocal rv else 0)
                     + (if seasonality_local_term_on m then val_reg_seasonality_glocal rv else 0)"
      by (rule reg_loss_def)
    show "\<not> trend_local_term_on m \<and> \<not> seasonality_local_term_on m \<longrightarrow> reg_loss = 0" by (rule z)
    show "\<forall>time predicted targets loss_w.
               reg_enabled m \<and> \<not> finding_lr m
               \<and> weighted_loss m time (loss_func_elementwise (cfg_train m) predicted targets) = Inr loss_w
               \<longrightarrow> loss_func m rv (Some progress) time predicted targets
                     = Inr (sum_dim2_mean loss_w + reg_loss, reg_loss)"
      using l by blast
  qed
qed

text \<open>
  The terms that \<open>_add_batch_regularizations\<close> adds whatever the delay weight: when it
  returns, the local term of the trend is among the terms added exactly under the
  condition of line 995, and the local term of the seasonality exactly under the
  condition of line 1003; the regularization loss is the sum of the delayed terms and of
  these; with the mode global a component has no local term, whatever its weight.
\<close>

lemma local_terms_added:
  assumes "add_batch_regularizations m rv loss progress = Inr (loss', reg_loss, terms)"
  shows "(TrendGlocal \<in> fst ` set terms \<longleftrightarrow> trend_local_term_on m)
       \<and> (SeasonalityGlocal \<in> fst ` set terms \<longleftrightarrow> seasonality_local_term_on m)
       \<and> reg_loss = sum_list (map snd (filter (\<lambda>x. \<not> is_local_term (fst x)) terms))
                   + (if trend_local_term_on m then val_reg_trend_glocal rv else 0)
                   + (if seasonality_local_term_on m then val_reg_seasonality_glocal rv else 0)
       \<and> (\<forall>ct. cfg_trend m = Some ct \<and> trend_global_local ct = ''global'' \<longrightarrow> \<not> trend_local_term_on m)
       \<and> (\<forall>cs. cfg_seasonality m = Some cs \<and> season_global_local cs = ''global''
              \<longrightarrow> \<not> seasonality_local_term_on m)"
proof -
  from assms obtain ts where
    ts: "(if get_reg_delay_weight (cfg_train m) progress > 0 then delayed_terms m rv else Inr []) = Inr ts"
    and terms: "terms = ts @ glocal_terms m rv"
    and reg: "reg_loss = sum_list (map snd terms)"
    by (auto simp: add_batch_regularizations_def Let_def split: sum.splits)
  have nl: "\<forall>x\<in>set ts. \<not> is_local_term (fst x)"
    using ts delayed_terms_not_local by (auto split: if_splits)
  then have f1: "filter (\<lambda>x. \<not> is_local_term (fst x)) ts = ts" by simp
  have f2: "filter (\<lambda>x. \<not> is_local_term (fst x)) (glocal_terms m rv) = []"
    by (simp add: glocal_terms_eq is_local_term_def)
  have a: "TrendGlocal \<in> fst ` set terms \<longleftrightarrow> trend_local_term_on m"
    using nl by (auto simp: terms glocal_terms_eq is_local_term_def)
  have b: "SeasonalityGlocal \<in> fst ` set terms \<longleftrightarrow> seasonality_local_term_on m"
    using nl by (auto simp: terms glocal_terms_eq is_local_term_def)
  have c: "reg_loss = sum_list (map snd (filter (\<lambda>x. \<not> is_local_term (fst x)) terms))
                   + (if trend_local_term_on m then val_reg_trend_glocal rv else 0)
                   + (if seasonality_local_term_on m then val_reg_seasonality_glocal rv else 0)"
    unfolding reg terms filter_append f1 f2 by (simp add: glocal_terms_eq)
  have d: "\<forall>ct. cfg_trend m = Some ct \<and> trend_global_local ct = ''global'' \<longrightarrow> \<not> trend_local_term_on m"
    by (simp add: trend_local_term_on_def)
  have e: "\<forall>cs. cfg_seasonality m = Some cs \<and> season_global_local cs = ''global''
              \<longrightarrow> \<not> seasonality_local_term_on m"
    by (simp add: seasonality_local_term_on_def)
  show ?thesis using a b c d e by blast
qed

lemma training_step_raises_early:
  assumes "train_steps_per_epoch m = 0 \<or> epochs (cfg_train m) = 0
           \<or> (meta_used_in_model m \<and> list_ex (\<lambda>i. i \<notin> set (id_list m)) df_name)
           \<or> (\<exists>e. forward m env Train = Inl e)
           \<or> (\<exists>predicted e. forward m env Train = Inr predicted
                 \<and> loss_func m rv
                      (Some ((real current_epoch + real batch_idx / real (train_steps_per_epoch m))
                             / real (epochs (cfg_train m))))
                      (time_input env) predicted targets = Inl e)"
  shows "\<exists>e. training_step m rv env targets df_name current_epoch batch_idx st = (st, Inl e)"
  using assms by (auto simp: training_step_def Let_def)

lemma log_metrics_cases:
  obtains (logged) predicted0 f where
      "channel0 predicted = Inr predicted0" "denormalize m = Inr f"
      "log_metrics m predicted targets st
         = (st\<lparr>calls := calls st @ [LogDict, Log ''Loss'', Log ''RegLoss'', Log ''LR'']\<rparr>, None)"
  | (raised) e where
      "channel0 predicted = Inl e \<or> denormalize m = Inl e"
      "log_metrics m predicted targets st = (st, Some e)"
proof (cases "channel0 predicted")
  case (Inl e)
  then have "log_metrics m predicted targets st = (st, Some e)" by (simp add: log_metrics_def)
  with Inl show ?thesis by (intro raised [of e]) simp_all
next
  case p: (Inr predicted0)
  show ?thesis
  proof (cases "denormalize m")
    case (Inl e)
    then have "log_metrics m predicted targets st = (st, Some e)" by (simp add: log_metrics_def p)
    with Inl show ?thesis by (intro raised [of e]) simp_all
  next
    case (Inr f)
    then have "log_metrics m predicted targets st
         = (st\<lparr>calls := calls st @ [LogDict, Log ''Loss'', Log ''RegLoss'', Log ''LR'']\<rparr>, None)"
      by (simp add: log_metrics_def p call_def Let_def)
    with p Inr show ?thesis by (intro logged [of predicted0 f]) simp_all
  qed
qed

lemma training_step_optimizes:
  assumes nz: "train_steps_per_epoch m \<noteq> 0" "epochs (cfg_train m) \<noteq> 0"
    and meta: "\<not> (meta_used_in_model m \<and> list_ex (\<lambda>i. i \<notin> set (id_list m)) df_name)"
    and fw: "forward m env Train = Inr predicted"
    and lf: "loss_func m rv
               (Some ((real current_epoch + real batch_idx / real (train_steps_per_epoch m))
                      / real (epochs (cfg_train m))))
               (time_input env) predicted targets = Inr (loss, reg_loss)"
  shows "\<exists>st' res rest.
           training_step m rv env targets df_name current_epoch batch_idx st = (st', res)
         \<and> calls st' = calls st
             @ [ZeroGrad, Backward loss, OptimizerStep,
                SchedulerStep (if finding_lr m then None
                  else Some (real current_epoch + real batch_idx / real (train_steps_per_epoch m)))]
             @ rest
         \<and> filter is_optimization_action rest = []
         \<and> (res = Inr loss
              \<or> (metrics_enabled m \<and> \<not> finding_lr m
                  \<and> (\<exists>e. res = Inl e \<and> (channel0 predicted = Inl e \<or> denormalize m = Inl e))))
         \<and> ((\<not> metrics_enabled m \<or> finding_lr m
               \<or> ((\<exists>predicted0. channel0 predicted = Inr predicted0) \<and> (\<exists>f. denormalize m = Inr f)))
              \<longrightarrow> res = Inr loss)"
proof (cases "metrics_enabled m \<and> \<not> finding_lr m")
  case False
  then have "training_step m rv env targets df_name current_epoch batch_idx st
      = (st\<lparr>calls := calls st
             @ [ZeroGrad, Backward loss, OptimizerStep,
                SchedulerStep (if finding_lr m then None
                  else Some (real current_epoch + real batch_idx / real (train_steps_per_epoch m)))]
             @ (if finding_lr m then [Log ''train_loss''] else [])\<rparr>, Inr loss)"
    using nz meta by (auto simp: training_step_def Let_def fw lf call_def)
  then show ?thesis by (intro exI conjI) (assumption, auto)
next
  case True
  let ?st5 = "st\<lparr>calls := calls st
             @ [ZeroGrad, Backward loss, OptimizerStep,
                SchedulerStep (Some (real current_epoch + real batch_idx / real (train_steps_per_epoch m)))]\<rparr>"
  have ts: "training_step m rv env targets df_name current_epoch batch_idx st
      = (case log_metrics m predicted targets ?st5 of
           (st6, Some e) \<Rightarrow> (st6, Inl e)
         | (st6, None) \<Rightarrow> (st6, Inr loss))"
    using nz meta True by (auto simp: training_step_def Let_def fw lf call_def)
  show ?thesis
  proof (cases rule: log_metrics_cases [of predicted m targets ?st5])
    case (logged predicted0 f)
    have "training_step m rv env targets df_name current_epoch batch_idx st
      = (st\<lparr>calls := calls st
             @ [ZeroGrad, Backward loss, OptimizerStep,
                SchedulerStep (if finding_lr m then None
                  else Some (real current_epoch + real batch_idx / real (train_steps_per_epoch m)))]
             @ [LogDict, Log ''Loss'', Log ''RegLoss'', Log ''LR'']\<rparr>, Inr loss)"
      unfolding ts logged(3) using True by simp
    then show ?thesis by (intro exI conjI) (assumption, auto)
  next
    case (raised e)
    have "training_step m rv env targets df_name current_epoch batch_idx st
      = (st\<lparr>calls := calls st
             @ [ZeroGrad, Backward loss, OptimizerStep,
                SchedulerStep (if finding_lr m then None
                  else Some (real current_epoch + real batch_idx / real (train_steps_per_epoch m)))]
             @ []\<rparr>, Inl e)"
      unfolding ts raised(2) using True by simp
    then show ?thesis using True raised(1) by (intro exI conjI) (assumption, auto)
  qed
qed

text \<open>
  Claim C9.  In every execution of a training step the calls made are either none, and
  then the step has raised, or the gradient zeroing, the backpropagation of the loss, the
  optimizer step and the scheduler step in this order, followed only by calls that are
  none of the four.  The four calls are made whenever the step gets as far as a loss: the
  two divisors are not zero, the series names are known, and \<open>forward\<close> and \<open>loss_func\<close>
  return; the loss backpropagated is then the one \<open>loss_func\<close> returned, and the step
  returns it unless the metrics block raises after the four calls.
\<close>

theorem training_step_order:
  "(let epoch_float = real current_epoch + real batch_idx / real (train_steps_per_epoch m);
        train_progress = epoch_float / real (epochs (cfg_train m));
        scheduler_step = SchedulerStep (if finding_lr m then None else Some epoch_float);
        (st', res) = training_step m rv env targets df_name current_epoch batch_idx st
    in ((\<exists>e. res = Inl e \<and> calls st' = calls st)
        \<or> (\<exists>loss rest.
              calls st' = calls st @ [ZeroGrad, Backward loss, OptimizerStep, scheduler_step] @ rest
            \<and> filter is_optimization_action rest = []
            \<and> (res = Inr loss \<or> (\<exists>e. res = Inl e))))
     \<and> (\<forall>predicted loss reg_loss.
           train_steps_per_epoch m \<noteq> 0 \<and> epochs (cfg_train m) \<noteq> 0
           \<and> \<not> (meta_used_in_model m \<and> list_ex (\<lambda>i. i \<notin> set (id_list m)) df_name)
           \<and> forward m env Train = Inr predicted
           \<and> loss_func m rv (Some train_progress) (time_input env) predicted targets
               = Inr (loss, reg_loss)
           \<longrightarrow> (\<exists>rest.
                  calls st' = calls st @ [ZeroGrad, Backward loss, OptimizerStep, scheduler_step] @ rest
                \<and> filter is_optimization_action rest = [])
               \<and> (res = Inr loss
                    \<or> (metrics_enabled m \<and> \<not> finding_lr m
                        \<and> (\<exists>e. res = Inl e \<and> (channel0 predicted = Inl e \<or> denormalize m = Inl e))))
               \<and> ((\<not> metrics_enabled m \<or> finding_lr m
                     \<or> ((\<exists>predicted0. channel0 predicted = Inr predicted0)
                         \<and> (\<exists>f. denormalize m = Inr f)))
                    \<longrightarrow> res = Inr loss)))"
proof -
  let ?tp = "(real current_epoch + real batch_idx / real (train_steps_per_epoch m))
               / real (epochs (cfg_train m))"
  let ?early = "train_steps_per_epoch m = 0 \<or> epochs (cfg_train m) = 0
           \<or> (meta_used_in_model m \<and> list_ex (\<lambda>i. i \<notin> set (id_list m)) df_name)
           \<or> (\<exists>e. forward m env Train = Inl e)
           \<or> (\<exists>predicted e. forward m env Train = Inr predicted
                 \<and> loss_func m rv (Some ?tp) (time_input env) predicted targets = Inl e)"
  show ?thesis
  proof (cases ?early)
    case True
    from training_step_raises_early [OF True, of st]
    obtain e where ts: "training_step m rv env targets df_name current_epoch batch_idx st = (st, Inl e)"
      by blast
    from True have no: "\<not> (train_steps_per_epoch m \<noteq> 0 \<and> epochs (cfg_train m) \<noteq> 0
           \<and> \<not> (meta_used_in_model m \<and> list_ex (\<lambda>i. i \<notin> set (id_list m)) df_name)
           \<and> forward m env Train = Inr predicted
           \<and> loss_func m rv (Some ?tp) (time_input env) predicted targets = Inr (loss, reg_loss))"
      for predicted loss reg_loss
      by auto
    show ?thesis unfolding Let_def ts prod.case using no by blast
  next
    case False
    then have nz: "train_steps_per_epoch m \<noteq> 0" "epochs (cfg_train m) \<noteq> 0"
      and meta: "\<not> (meta_used_in_model m \<and> list_ex (\<lambda>i. i \<notin> set (id_list m)) df_name)"
      by simp_all
    from False obtain predicted where fw: "forward m env Train = Inr predicted"
      by (cases "forward m env Train") auto
    from False fw obtain loss reg_loss where
      lf: "loss_func m rv (Some ?tp) (time_input env) predicted targets = Inr (loss, reg_loss)"
      by (cases "loss_func m rv (Some ?tp) (time_input env) predicted targets") auto
    from training_step_optimizes [OF nz meta fw lf, of st]
    obtain st' res rest where
      ts: "training_step m rv env targets df_name current_epoch batch_idx st = (st', res)"
      and cl: "calls st' = calls st
             @ [ZeroGrad, Backward loss, OptimizerStep,
                SchedulerStep (if finding_lr m then None
                  else Some (real current_epoch + real batch_idx / real (train_steps_per_epoch m)))]
             @ rest"
      and ro: "filter is_optimization_action rest = []"
      and r1: "res = Inr loss
              \<or> (metrics_enabled m \<and> \<not> finding_lr m
                  \<and> (\<exists>e. res = Inl e \<and> (channel0 predicted = Inl e \<or> denormalize m = Inl e)))"
      and r2: "(\<not> metrics_enabled m \<or> finding_lr m
               \<or> ((\<exists>predicted0. channel0 predicted = Inr predicted0) \<and> (\<exists>f. denormalize m = Inr f)))
              \<longrightarrow> res = Inr loss"
      by blast
    have first: "(\<exists>e. res = Inl e \<and> calls st' = calls st)
        \<or> (\<exists>loss rest.
              calls st' = calls st
                @ [ZeroGrad, Backward loss, OptimizerStep,
                   SchedulerStep (if finding_lr m then None
                     else Some (real current_epoch + real batch_idx / real (train_steps_per_epoch m)))]
                @ rest
            \<and> filter is_optimization_action rest = []
            \<and> (res = Inr loss \<or> (\<exists>e. res = Inl e)))"
      using cl ro r1 by blast
    have second: "(\<exists>rest.
                  calls st' = calls st
                    @ [ZeroGrad, Backward loss', OptimizerStep,
                       SchedulerStep (if finding_lr m then None
                         else Some (real current_epoch + real batch_idx / real (train_steps_per_epoch m)))]
                    @ rest
                \<and> filter is_optimization_action rest = [])
               \<and> (res = Inr loss'
                    \<or> (metrics_enabled m \<and> \<not> finding_lr m
                        \<and> (\<exists>e. res = Inl e \<and> (channel0 predicted' = Inl e \<or> denormalize m = Inl e))))
               \<and> ((\<not> metrics_enabled m \<or> finding_lr m
                     \<or> ((\<exists>predicted0. channel0 predicted' = Inr predicted0)
                         \<and> (\<exists>f. denormalize m = Inr f)))
                    \<longrightarrow> res = Inr loss')"
      if "forward m env Train = Inr predicted'"
        "loss_func m rv (Some ?tp) (time_input env) predicted' targets = Inr (loss', reg_loss')"
      for predicted' loss' reg_loss'
    proof -
      from that fw lf have "predicted' = predicted" "loss' = loss" by simp_all
      then show ?thesis using cl ro r1 r2 by blast
    qed
    show ?thesis unfolding Let_def ts prod.case
    proof (rule conjI [OF first]; intro allI impI)
      fix predicted' loss' reg_loss'
      assume h: "train_steps_per_epoch m \<noteq> 0 \<and> epochs (cfg_train m) \<noteq> 0
           \<and> \<not> (meta_used_in_model m \<and> list_ex (\<lambda>i. i \<notin> set (id_list m)) df_name)
           \<and> forward m env Train = Inr predicted'
           \<and> loss_func m rv (Some ?tp) (time_input env) predicted' targets = Inr (loss', reg_loss')"
      then have a: "forward m env Train = Inr predicted'"
        and b: "loss_func m rv (Some ?tp) (time_input env) predicted' targets = Inr (loss', reg_loss')"
        by simp_all
      show "(\<exists>rest.
                  calls st' = calls st
                    @ [ZeroGrad, Backward loss', OptimizerStep,
                       SchedulerStep (if finding_lr m then None
                         else Some (real current_epoch + real batch_idx / real (train_steps_per_epoch m)))]
                    @ rest
                \<and> filter is_optimization_action rest = [])
               \<and> (res = Inr loss'
                    \<or> (metrics_enabled m \<and> \<not> finding_lr m
                        \<and> (\<exists>e. res = Inl e \<and> (channel0 predicted' = Inl e \<or> denormalize m = Inl e))))
               \<and> ((\<not> metrics_enabled m \<or> finding_lr m
                     \<or> ((\<exists>predicted0. channel0 predicted' = Inr predicted0)
                         \<and> (\<exists>f. denormalize m = Inr f)))
                    \<longrightarrow> res = Inr loss')"
        by (rule second [OF a b])
    qed
  qed
qed

section \<open>Properties of the forward pass\<close>

lemma collect_Inr_D: "collect rs = Inr vs \<Longrightarrow> rs = map Inr vs"
proof (induction rs arbitrary: vs)
  case Nil
  then show ?case by simp
next
  case (Cons r rs)
  then show ?case by (cases r) (auto split: sum.splits)
qed

lemma bc_inplace_pres:
  assumes "bc_inplace f xs ys = Inr zs"
    and "\<And>x y z. f x y = Inr z \<Longrightarrow> P x \<Longrightarrow> P z"
    and "list_all P xs"
  shows "length zs = length xs \<and> list_all P zs"
proof (cases "length xs = length ys")
  case True
  with assms(1) have "collect (map2 f xs ys) = Inr zs" by (simp add: bc_inplace_def)
  then have eq: "map2 f xs ys = map Inr zs" by (rule collect_Inr_D)
  then have "length (map2 f xs ys) = length (map Inr zs)" by simp
  then have len: "length zs = length xs" using True by simp
  have "P (zs ! i)" if "i < length zs" for i
  proof -
    have "map2 f xs ys ! i = map Inr zs ! i" using eq by simp
    then have "f (xs ! i) (ys ! i) = Inr (zs ! i)" using that len True by simp
    moreover have "P (xs ! i)" using assms(3) that len by (simp add: list_all_length)
    ultimately show ?thesis by (rule assms(2))
  qed
  then show ?thesis using len by (simp add: list_all_length)
next
  case False
  with assms(1) have one: "length ys = 1" and c: "collect (map (\<lambda>x. f x (hd ys)) xs) = Inr zs"
    by (auto simp: bc_inplace_def split: if_splits)
  from c have eq: "map (\<lambda>x. f x (hd ys)) xs = map Inr zs" by (rule collect_Inr_D)
  then have "length (map (\<lambda>x. f x (hd ys)) xs) = length (map Inr zs)" by simp
  then have len: "length zs = length xs" by simp
  have "P (zs ! i)" if "i < length zs" for i
  proof -
    have "map (\<lambda>x. f x (hd ys)) xs ! i = map Inr zs ! i" using eq by simp
    then have "f (xs ! i) (hd ys) = Inr (zs ! i)" using that len by simp
    moreover have "P (xs ! i)" using assms(3) that len by (simp add: list_all_length)
    ultimately show ?thesis by (rule assms(2))
  qed
  then show ?thesis using len by (simp add: list_all_length)
qed

lemma tensor_iadd_shape:
  assumes "tensor_iadd x y = Inr z" "has_shape B T Q x"
  shows "has_shape B T Q z"
proof -
  let ?f1 = "bc_inplace (\<lambda>(a::real) (b::real). Inr (a + b) :: error + real)"
  let ?f2 = "bc_inplace ?f1"
  have l1: "length c' = Q" if "?f1 c d = Inr c'" "length c = Q" for c d c'
    using bc_inplace_pres [OF that(1), of "\<lambda>_. True"] that(2) by (simp add: list_all_iff)
  have l2: "length r' = T \<and> list_all (\<lambda>c. length c = Q) r'"
    if "?f2 r s = Inr r'" "length r = T \<and> list_all (\<lambda>c. length c = Q) r" for r s r'
    using bc_inplace_pres [OF that(1), of "\<lambda>c. length c = Q"] l1 that(2) by auto
  have "length z = length x \<and> list_all (\<lambda>r. length r = T \<and> list_all (\<lambda>c. length c = Q) r) z"
  proof (rule bc_inplace_pres)
    show "bc_inplace ?f2 x y = Inr z" using assms(1) by (simp add: tensor_iadd_def)
    show "length z = T \<and> list_all (\<lambda>c. length c = Q) z"
      if "?f2 x y = Inr z" "length x = T \<and> list_all (\<lambda>c. length c = Q) x" for x y z
      using l2 that by blast
    show "list_all (\<lambda>r. length r = T \<and> list_all (\<lambda>c. length c = Q) r) x"
      using assms(2) by (simp add: has_shape_def)
  qed
  then show ?thesis using assms(2) by (simp add: has_shape_def)
qed

lemma has_shape_zeros: "has_shape B T Q (zeros B T Q)"
  by (simp add: has_shape_def zeros_def list_all_iff)

lemma bind_err_Inr_D: "bind_err r f = Inr v \<Longrightarrow> \<exists>u. r = Inr u \<and> f u = Inr v"
  by (cases r) (simp_all add: bind_err_def)

lemma iadd_fst_shape:
  assumes "bind_err (tensor_iadd (fst acc) x) (\<lambda>a. Inr (a, snd acc)) = Inr acc'"
    and "has_shape B T Q (fst acc) \<and> has_shape B T Q (snd acc)"
  shows "has_shape B T Q (fst acc') \<and> has_shape B T Q (snd acc')"
proof -
  from bind_err_Inr_D [OF assms(1)] obtain a where "tensor_iadd (fst acc) x = Inr a" "acc' = (a, snd acc)"
    by auto
  then show ?thesis using assms(2) tensor_iadd_shape by auto
qed

lemma iadd_snd_shape:
  assumes "bind_err (tensor_iadd (snd acc) x) (\<lambda>mu. Inr (fst acc, mu)) = Inr acc'"
    and "has_shape B T Q (fst acc) \<and> has_shape B T Q (snd acc)"
  shows "has_shape B T Q (fst acc') \<and> has_shape B T Q (snd acc')"
proof -
  from bind_err_Inr_D [OF assms(1)] obtain mu where "tensor_iadd (snd acc) x = Inr mu" "acc' = (fst acc, mu)"
    by auto
  then show ?thesis using assms(2) tensor_iadd_shape by auto
qed

lemma nonstationary_accumulators_shape:
  assumes "nonstationary_accumulators m env = Inr (a, mu)"
  shows "has_shape (length (time_input env)) (window_length (time_input env)) (length (quantiles m)) a
       \<and> has_shape (length (time_input env)) (window_length (time_input env)) (length (quantiles m)) mu"
proof -
  define B where "B = length (time_input env)"
  define T where "T = window_length (time_input env)"
  define Q where "Q = length (quantiles m)"
  define I where "I = (\<lambda>acc :: tensor \<times> tensor. has_shape B T Q (fst acc) \<and> has_shape B T Q (snd acc))"
  define acc0 where "acc0 = (zeros B T Q, zeros B T Q)"
  have I0: "I acc0" by (simp add: I_def acc0_def has_shape_zeros)
  have Ifst: "I acc'" if "bind_err (tensor_iadd (fst acc) x) (\<lambda>a. Inr (a, snd acc)) = Inr acc'" "I acc"
    for acc acc' x using iadd_fst_shape [OF that(1)] that(2) by (simp add: I_def)
  have Isnd: "I acc'" if "bind_err (tensor_iadd (snd acc) x) (\<lambda>mu. Inr (fst acc, mu)) = Inr acc'" "I acc"
    for acc acc' x using iadd_snd_shape [OF that(1)] that(2) by (simp add: I_def)
  from assms obtain acc1 acc2 acc3 where
    s1: "(case cfg_seasonality m of
              None \<Rightarrow> Inr acc0
            | Some cs \<Rightarrow>
                if season_periods cs \<noteq> [] then
                  (if season_mode cs = ''additive''
                   then bind_err (tensor_iadd (fst acc0) (seasonality_out env)) (\<lambda>a. Inr (a, snd acc0))
                   else if season_mode cs = ''multiplicative''
                   then bind_err (tensor_iadd (snd acc0) (seasonality_out env)) (\<lambda>mu. Inr (fst acc0, mu))
                   else Inr acc0)
                else Inr acc0) = Inr acc1"
    and s2: "(if events_dims_present m then
              bind_err
                (case additive_events_input env of
                   None \<Rightarrow> Inr acc1
                 | Some inp \<Rightarrow>
                     bind_err (scalar_features_effects inp (event_params_additive m))
                       (\<lambda>ev. bind_err (tensor_iadd (fst acc1) ev) (\<lambda>a. Inr (a, snd acc1))))
                (\<lambda>acc. case multiplicative_events_input env of
                   None \<Rightarrow> Inr acc
                 | Some inp \<Rightarrow>
                     bind_err (scalar_features_effects inp (event_params_multiplicative m))
                       (\<lambda>ev. bind_err (tensor_iadd (snd acc) ev) (\<lambda>mu. Inr (fst acc, mu))))
            else Inr acc1) = Inr acc2"
    and s3: "(case additive_regressors_out env of
              None \<Rightarrow> Inr acc2
            | Some r \<Rightarrow>
                if regressors_configured m
                then bind_err (tensor_iadd (fst acc2) r) (\<lambda>a. Inr (a, snd acc2))
                else Inl AttributeError) = Inr acc3"
    and s4: "(case multiplicative_regressors_out env of
              None \<Rightarrow> Inr acc3
            | Some r \<Rightarrow>
                if regressors_configured m
                then bind_err (tensor_iadd (snd acc3) r) (\<lambda>mu. Inr (fst acc3, mu))
                else Inl AttributeError) = Inr (a, mu)"
    unfolding nonstationary_accumulators_def Let_def B_def [symmetric] T_def [symmetric]
      Q_def [symmetric] acc0_def [symmetric]
    by (blast dest: bind_err_Inr_D)
  have I1: "I acc1"
    using s1 I0 Ifst Isnd by (auto split: option.splits if_splits)
  have I2: "I acc2"
  proof (cases "events_dims_present m")
    case False
    then show ?thesis using s2 I1 by simp
  next
    case True
    with s2 obtain acc where
      e1: "(case additive_events_input env of
                   None \<Rightarrow> Inr acc1
                 | Some inp \<Rightarrow>
                     bind_err (scalar_features_effects inp (event_params_additive m))
                       (\<lambda>ev. bind_err (tensor_iadd (fst acc1) ev) (\<lambda>a. Inr (a, snd acc1)))) = Inr acc"
      and e2: "(case multiplicative_events_input env of
                   None \<Rightarrow> Inr acc
                 | Some inp \<Rightarrow>
                     bind_err (scalar_features_effects inp (event_params_multiplicative m))
                       (\<lambda>ev. bind_err (tensor_iadd (snd acc) ev) (\<lambda>mu. Inr (fst acc, mu)))) = Inr acc2"
      by (auto dest: bind_err_Inr_D)
    have "I acc"
    proof (cases "additive_events_input env")
      case None
      then show ?thesis using e1 I1 by simp
    next
      case (Some inp)
      with e1 obtain ev where "bind_err (tensor_iadd (fst acc1) ev) (\<lambda>a. Inr (a, snd acc1)) = Inr acc"
        by (auto dest: bind_err_Inr_D)
      then show ?thesis using I1 by (rule Ifst)
    qed
    show ?thesis
    proof (cases "multiplicative_events_input env")
      case None
      then show ?thesis using e2 \<open>I acc\<close> by simp
    next
      case (Some inp)
      with e2 obtain ev where "bind_err (tensor_iadd (snd acc) ev) (\<lambda>mu. Inr (fst acc, mu)) = Inr acc2"
        by (auto dest: bind_err_Inr_D)
      then show ?thesis using \<open>I acc\<close> by (rule Isnd)
    qed
  qed
  have I3: "I acc3"
    using s3 I2 Ifst by (auto split: option.splits if_splits)
  have "I (a, mu)"
    using s4 I3 Isnd by (auto split: option.splits if_splits)
  then show ?thesis by (simp add: I_def B_def T_def Q_def)
qed

lemma additive_accumulator_shape:
  assumes "additive_accumulator m env a mu = Inr ad"
  shows "has_shape (length (time_input env)) (n_forecasts m) (length (quantiles m)) ad"
proof -
  define B where "B = length (time_input env)"
  define Q where "Q = length (quantiles m)"
  define acc0 where "acc0 = zeros B (n_forecasts m) Q"
  have I0: "has_shape B (n_forecasts m) Q acc0" by (simp add: acc0_def has_shape_zeros)
  from assms obtain acc1 where
    s1: "(case lags_input env of
              None \<Rightarrow> Inr acc0
            | Some lags_in \<Rightarrow>
                bind_err (slice_lags_channel0 (n_lags m) (trend_out env)) (\<lambda>trend_l.
                bind_err (slice_lags_channel0 (n_lags m) a) (\<lambda>a_l.
                bind_err (slice_lags_channel0 (n_lags m) mu) (\<lambda>mu_l.
                bind_err (matrix_op (+) trend_l a_l) (\<lambda>s1.
                bind_err (matrix_op (*) (detach trend_l) mu_l) (\<lambda>s2.
                bind_err (matrix_op (+) s1 s2) (\<lambda>nonstationary_components.
                bind_err (matrix_op (-) lags_in nonstationary_components) (\<lambda>stationarized_lags.
                if has_ar_net m then
                  bind_err (view3 (n_forecasts m) Q (ar_net m stationarized_lags)) (\<lambda>lags.
                  tensor_iadd acc0 lags)
                else Inl AttributeError)))))))) = Inr acc1"
    and s2: "(if lagged_regressors_configured m
           then bind_err (view3 (n_forecasts m) Q (covar_net_out env)) (\<lambda>covariates.
                tensor_iadd acc1 covariates)
           else Inr acc1) = Inr ad"
    unfolding additive_accumulator_def Let_def B_def [symmetric] Q_def [symmetric] acc0_def [symmetric]
    by (blast dest: bind_err_Inr_D)
  have I1: "has_shape B (n_forecasts m) Q acc1"
  proof (cases "lags_input env")
    case None
    then show ?thesis using s1 I0 by simp
  next
    case (Some lags_in)
    with s1 obtain lags where "tensor_iadd acc0 lags = Inr acc1"
      by (auto dest!: bind_err_Inr_D split: if_splits)
    then show ?thesis using I0 by (rule tensor_iadd_shape)
  qed
  show ?thesis
  proof (cases "lagged_regressors_configured m")
    case False
    then show ?thesis using s2 I1 by (simp add: B_def Q_def)
  next
    case True
    with s2 obtain cov where "tensor_iadd acc1 cov = Inr ad"
      by (auto dest!: bind_err_Inr_D)
    then show ?thesis using I1 unfolding B_def Q_def by (rule tensor_iadd_shape)
  qed
qed

lemma has_shape_map2:
  assumes "has_shape B T Q x" "has_shape B T Q y"
  shows "has_shape B T Q (map2 (map2 (map2 f)) x y)"
  using assms by (auto simp: has_shape_def list_all_length)

lemma nth_map2_3:
  assumes "has_shape B T Q x" "has_shape B T Q y" "b < B" "t < T" "q < Q"
  shows "map2 (map2 (map2 f)) x y ! b ! t ! q = f (x ! b ! t ! q) (y ! b ! t ! q)"
  using assms by (auto simp: has_shape_def list_all_length)

lemma tensor_op_same:
  assumes "has_shape B T Q x" "has_shape B T Q y"
  shows "tensor_op f x y = Inr (map2 (map2 (map2 f)) x y)"
proof -
  have l1: "bc (\<lambda>a b. Inr (f a b)) c d = Inr (map2 f c d)" if "length c = length d" for c d
    using that by (intro bc_same) simp_all
  have l2: "bc (bc (\<lambda>a b. Inr (f a b))) r s = Inr (map2 (map2 f) r s)"
    if "(r, s) \<in> set (zip x y)" for r s
  proof -
    from that obtain b where b: "b < B" "r = x ! b" "s = y ! b"
      using assms by (auto simp: set_zip has_shape_def)
    have len: "length r = length s" using b assms by (auto simp: has_shape_def list_all_length)
    have "bc (\<lambda>a b. Inr (f a b)) c d = Inr (map2 f c d)" if "(c, d) \<in> set (zip r s)" for c d
    proof -
      from that obtain t where "t < T" "c = r ! t" "d = s ! t"
        using b assms by (auto simp: set_zip has_shape_def list_all_length)
      then have "length c = length d" using b assms by (auto simp: has_shape_def list_all_length)
      then show ?thesis by (rule l1)
    qed
    then show ?thesis by (rule bc_same [OF len])
  qed
  have "length x = length y" using assms by (simp add: has_shape_def)
  then show ?thesis unfolding tensor_op_def by (rule bc_same) (rule l2)
qed

lemma slice_horizon_shape:
  assumes "has_shape B T Q x"
  shows "has_shape B (T - n) Q (slice_horizon n T x)"
  using assms by (auto simp: has_shape_def slice_horizon_def list_all_iff dest: in_set_dropD in_set_takeD)

lemma slice_horizon_nth:
  assumes "has_shape B T Q x" "b < B" "n + h < T"
  shows "slice_horizon n T x ! b ! h = x ! b ! (n + h)"
  using assms by (auto simp: has_shape_def slice_horizon_def list_all_length)

text \<open>
  Claim C2.  When the trend has the dims (batch, window, quantiles), the window is the
  lags followed by the forecast steps, and the accumulators have been computed, the
  prediction before the reconciliation is computed and has the dims (batch, forecasts,
  quantiles), and at every batch row, forecast step \<open>h\<close> and quantile it is the trend at
  window index \<open>n_lags + h\<close>, plus the nonstationary additive accumulator there, plus the
  detached trend there times the nonstationary multiplicative accumulator there, plus
  the stationary additive accumulator at \<open>h\<close>.
\<close>

theorem composition_over_horizon:
  assumes tr: "has_shape (length (time_input env)) (window_length (time_input env))
                 (length (quantiles m)) (trend_out env)"
    and win: "window_length (time_input env) = n_lags m + n_forecasts m"
    and ns: "nonstationary_accumulators m env = Inr (a, mu)"
    and ad: "additive_accumulator m env a mu = Inr ad"
  shows "\<exists>p. forward_prediction m env = Inr p
       \<and> has_shape (length (time_input env)) (n_forecasts m) (length (quantiles m)) p
       \<and> (\<forall>b < length (time_input env). \<forall>h < n_forecasts m. \<forall>q < length (quantiles m).
            p ! b ! h ! q =
              trend_out env ! b ! (n_lags m + h) ! q
              + a ! b ! (n_lags m + h) ! q
              + detach (trend_out env ! b ! (n_lags m + h) ! q) * mu ! b ! (n_lags m + h) ! q
              + ad ! b ! h ! q)"
proof -
  define B where "B = length (time_input env)"
  define T where "T = window_length (time_input env)"
  define Q where "Q = length (quantiles m)"
  define H where "H = n_forecasts m"
  define n where "n = n_lags m"
  define trend_h where "trend_h = slice_horizon n T (trend_out env)"
  define a_h where "a_h = slice_horizon n T a"
  define mu_h where "mu_h = slice_horizon n T mu"
  define s1 where "s1 = map2 (map2 (map2 (+))) trend_h a_h"
  define s2 where "s2 = map2 (map2 (map2 (*))) trend_h mu_h"
  define pn where "pn = map2 (map2 (map2 (+))) s1 s2"
  define p where "p = map2 (map2 (map2 (+))) pn ad"
  have TH: "T - n = H" "T = n + H" using win by (simp_all add: T_def H_def n_def)
  have sht: "has_shape B T Q (trend_out env)" using tr by (simp add: B_def T_def Q_def)
  have sha: "has_shape B T Q a" and shm: "has_shape B T Q mu"
    using nonstationary_accumulators_shape [OF ns] by (simp_all add: B_def T_def Q_def)
  have shad: "has_shape B H Q ad"
    using additive_accumulator_shape [OF ad] by (simp add: B_def H_def Q_def)
  have h1: "has_shape B H Q trend_h" unfolding trend_h_def TH(1) [symmetric] by (rule slice_horizon_shape [OF sht])
  have h2: "has_shape B H Q a_h" unfolding a_h_def TH(1) [symmetric] by (rule slice_horizon_shape [OF sha])
  have h3: "has_shape B H Q mu_h" unfolding mu_h_def TH(1) [symmetric] by (rule slice_horizon_shape [OF shm])
  have h4: "has_shape B H Q s1" unfolding s1_def by (rule has_shape_map2 [OF h1 h2])
  have h5: "has_shape B H Q s2" unfolding s2_def by (rule has_shape_map2 [OF h1 h3])
  have h6: "has_shape B H Q pn" unfolding pn_def by (rule has_shape_map2 [OF h4 h5])
  have h7: "has_shape B H Q p" unfolding p_def by (rule has_shape_map2 [OF h6 shad])
  have e1: "tensor_op (+) trend_h a_h = Inr s1" unfolding s1_def by (rule tensor_op_same [OF h1 h2])
  have e2: "tensor_op (*) (detach trend_h) mu_h = Inr s2"
    unfolding s2_def detach_def by (rule tensor_op_same [OF h1 h3])
  have e3: "tensor_op (+) s1 s2 = Inr pn" unfolding pn_def by (rule tensor_op_same [OF h4 h5])
  have e4: "tensor_op (+) pn ad = Inr p" unfolding p_def by (rule tensor_op_same [OF h6 shad])
  have comb: "combine_components m env a mu ad = Inr p"
    unfolding combine_components_def Let_def T_def [symmetric] n_def [symmetric]
      trend_h_def [symmetric] a_h_def [symmetric] mu_h_def [symmetric]
    by (simp add: bind_err_def e1 e2 e3 e4)
  have fp: "forward_prediction m env = Inr p"
    by (simp add: forward_prediction_def bind_err_def ns ad comb)
  have val: "p ! b ! h ! q =
              trend_out env ! b ! (n + h) ! q + a ! b ! (n + h) ! q
              + detach (trend_out env ! b ! (n + h) ! q) * mu ! b ! (n + h) ! q
              + ad ! b ! h ! q"
    if bhq: "b < B" "h < H" "q < Q" for b h q
  proof -
    have nh: "n + h < T" using bhq TH by simp
    have "p ! b ! h ! q = pn ! b ! h ! q + ad ! b ! h ! q"
      unfolding p_def by (rule nth_map2_3 [OF h6 shad bhq])
    also have "pn ! b ! h ! q = s1 ! b ! h ! q + s2 ! b ! h ! q"
      unfolding pn_def by (rule nth_map2_3 [OF h4 h5 bhq])
    also have "s1 ! b ! h ! q = trend_h ! b ! h ! q + a_h ! b ! h ! q"
      unfolding s1_def by (rule nth_map2_3 [OF h1 h2 bhq])
    also have "s2 ! b ! h ! q = trend_h ! b ! h ! q * mu_h ! b ! h ! q"
      unfolding s2_def by (rule nth_map2_3 [OF h1 h3 bhq])
    also have "trend_h ! b ! h = trend_out env ! b ! (n + h)"
      unfolding trend_h_def by (rule slice_horizon_nth [OF sht bhq(1) nh])
    also have "a_h ! b ! h = a ! b ! (n + h)"
      unfolding a_h_def by (rule slice_horizon_nth [OF sha bhq(1) nh])
    also have "mu_h ! b ! h = mu ! b ! (n + h)"
      unfolding mu_h_def by (rule slice_horizon_nth [OF shm bhq(1) nh])
    finally show ?thesis by (simp add: detach_def)
  qed
  show ?thesis
    unfolding B_def [symmetric] H_def [symmetric] Q_def [symmetric] n_def [symmetric]
  proof (intro exI conjI allI impI)
    show "forward_prediction m env = Inr p" by (rule fp)
    show "has_shape B H Q p" by (rule h7)
    show "p ! b ! h ! q =
              trend_out env ! b ! (n + h) ! q + a ! b ! (n + h) ! q
              + detach (trend_out env ! b ! (n + h) ! q) * mu ! b ! (n + h) ! q
              + ad ! b ! h ! q"
      if "b < B" "h < H" "q < Q" for b h q by (rule val [OF that])
  qed
qed

section \<open>The claims at the example model\<close>

lemma example_ns:
  "nonstationary_accumulators example_model example_env
     = Inr ([[[1, 1, 1], [1, 1, 1], [1, 1, 1]]], [[[1, 1, 1], [1, 1, 1], [1, 1, 1]]])"
  by (simp add: nonstationary_accumulators_def example_model_def example_env_def Let_def
      window_length_def zeros_def bind_err_def tensor_iadd_def bc_inplace_def)

lemma example_ad:
  "additive_accumulator example_model example_env
     [[[1, 1, 1], [1, 1, 1], [1, 1, 1]]] [[[1, 1, 1], [1, 1, 1], [1, 1, 1]]]
     = Inr [[[2, 2, 2], [2, 2, 2]]]"
  by (simp add: additive_accumulator_def example_model_def example_env_def Let_def
      zeros_def bind_err_def tensor_iadd_def bc_inplace_def slice_lags_channel0_def
      matrix_op_def bc_def view3_def detach_def numeral_eq_Suc)

lemma example_prediction:
  "forward_prediction example_model example_env = Inr [[[7, 3, 3], [9, 3, 3]]]"
  by (simp add: forward_prediction_def example_ns example_ad bind_err_def combine_components_def
      Let_def window_length_def slice_horizon_def tensor_op_def bc_def detach_def)
    (simp add: example_model_def example_env_def window_length_def bc_def)

lemma example_forward_train:
  "forward example_model example_env Train = Inr [[[7, 4, 10], [9, 6, 12]]]"
  by (simp add: forward_def example_prediction bind_err_def)
    (simp add: example_model_def compute_quantile_forecasts_from_diffs_def quantile_forecasts_row_def
      quantiles_divider_index_def detach_def Let_def predict_mode_of_def)

lemma example_forward_predict:
  "forward example_model example_env Predict = Inr [[[7, 4, 10], [9, 6, 12]]]"
  by (simp add: forward_def example_prediction bind_err_def)
    (simp add: example_model_def compute_quantile_forecasts_from_diffs_def quantile_forecasts_row_def
      quantiles_divider_index_def detach_def Let_def predict_mode_of_def clamp_upper_def clamp_lower_def)

text \<open>
  The theorem of claim C2 at the example: at the second forecast step the median channel
  is 3 + 1 + 3 * 1 + 2.
\<close>

theorem composition_over_horizon_witness:
  "has_shape 1 3 3 (trend_out example_env)
   \<and> window_length (time_input example_env) = n_lags example_model + n_forecasts example_model
   \<and> forward_prediction example_model example_env = Inr [[[7, 3, 3], [9, 3, 3]]]
   \<and> (9::real) = 3 + 1 + detach 3 * 1 + 2"
proof -
  let ?a = "[[[1, 1, 1], [1, 1, 1], [1, 1, 1]]] :: tensor"
  have h0: "has_shape 1 3 3 (trend_out example_env)"
    by (simp add: has_shape_def example_env_def)
  have h1: "has_shape (length (time_input example_env)) (window_length (time_input example_env))
              (length (quantiles example_model)) (trend_out example_env)"
    by (simp add: has_shape_def example_env_def example_model_def window_length_def)
  have h2: "window_length (time_input example_env) = n_lags example_model + n_forecasts example_model"
    by (simp add: example_env_def example_model_def window_length_def)
  from composition_over_horizon [OF h1 h2 example_ns example_ad]
  obtain p where p: "forward_prediction example_model example_env = Inr p"
    and v: "\<forall>b < length (time_input example_env). \<forall>h < n_forecasts example_model.
            \<forall>q < length (quantiles example_model).
            p ! b ! h ! q =
              trend_out example_env ! b ! (n_lags example_model + h) ! q
              + ?a ! b ! (n_lags example_model + h) ! q
              + detach (trend_out example_env ! b ! (n_lags example_model + h) ! q)
                  * ?a ! b ! (n_lags example_model + h) ! q
              + [[[2, 2, 2], [2, 2, 2]]] ! b ! h ! q"
    by blast
  from p have pe: "p = [[[7, 3, 3], [9, 3, 3]]]" by (simp add: example_prediction)
  have "p ! 0 ! 1 ! 0 =
              trend_out example_env ! 0 ! (n_lags example_model + 1) ! 0
              + ?a ! 0 ! (n_lags example_model + 1) ! 0
              + detach (trend_out example_env ! 0 ! (n_lags example_model + 1) ! 0)
                  * ?a ! 0 ! (n_lags example_model + 1) ! 0
              + [[[2, 2, 2], [2, 2, 2]]] ! 0 ! 1 ! 0"
    using v [rule_format, of 0 1 0] by (simp add: example_env_def example_model_def)
  then have e: "(9::real) = 3 + 1 + detach 3 * 1 + 2"
    by (simp add: pe example_env_def example_model_def)
  show ?thesis using h0 h2 p pe e by blast
qed

lemma example_glocal:
  "glocal_terms example_model example_values = [(TrendGlocal, 1/4), (SeasonalityGlocal, 1/8)]"
  by (simp add: glocal_terms_def example_model_def example_values_def truthy_def)

lemma example_delayed:
  "delayed_terms example_model example_values
     = Inr [(RegAR, 1), (RegTrend, 1), (RegSeason ''weekly'', 1), (RegRegressors, 1/2)]"
  by (simp add: delayed_terms_def example_model_def example_values_def Let_def)

text \<open>
  The theorem of claim C3 at the example, at the start of the training.
\<close>

theorem delay_weight_gating_witness:
  "get_reg_delay_weight (cfg_train example_model) 0 = 0
   \<and> add_batch_regularizations example_model example_values 5 0
       = Inr (5 + 3/8, 3/8, [(TrendGlocal, 1/4), (SeasonalityGlocal, 1/8)])"
proof -
  have h: "get_reg_delay_weight (cfg_train example_model) 0 = 0"
    by (simp add: example_model_def example_config_train_def)
  from delay_weight_gating [OF h, of example_values 5]
  obtain reg_loss terms where
    r: "add_batch_regularizations example_model example_values 5 0 = Inr (5 + reg_loss, reg_loss, terms)"
    and t: "terms = glocal_terms example_model example_values"
    and v: "reg_loss = (if trend_local_term_on example_model then val_reg_trend_glocal example_values else 0)
                + (if seasonality_local_term_on example_model
                   then val_reg_seasonality_glocal example_values else 0)"
    by blast
  have "reg_loss = 3/8"
    unfolding v
    by (simp add: trend_local_term_on_def seasonality_local_term_on_def example_model_def
        example_values_def truthy_def)
  with r t h show ?thesis by (simp add: example_glocal)
qed


lemma example_loss:
  "loss_func example_model example_values (Some 0) [[-1, 0, 1]] [[[7, 4, 10], [9, 6, 12]]] [[[7], [10]]]
     = Inr (5 + 3/8, 3/8)"
proof -
  have w: "weighted_loss example_model [[-1, 0, 1]] [[[0, 3, 3], [1, 4, 2]]]
             = Inr [[[0, 3/2, 3/2], [1, 4, 2]]]"
    by (simp add: weighted_loss_def example_model_def example_config_train_def
        get_time_based_sample_weight_def time_based_sample_weight_def Let_def detach_def
        tensor_op_def bc_def)
  have l: "loss_func_elementwise (cfg_train example_model) [[[7, 4, 10], [9, 6, 12]]] [[[7], [10]]]
             = [[[0, 3, 3], [1, 4, 2]]]"
    by (simp add: example_model_def example_config_train_def)
  have r: "add_batch_regularizations example_model example_values 5 0
       = Inr (5 + 3/8, 3/8, [(TrendGlocal, 1/4), (SeasonalityGlocal, 1/8)])"
    by (simp add: add_batch_regularizations_def Let_def example_glocal)
      (simp add: example_model_def example_config_train_def)
  have s: "sum_dim2_mean [[[0, 3/2, 3/2], [1, 4, 2]]] = 5" by (simp add: sum_dim2_mean_def)
  have f: "reg_enabled example_model \<and> \<not> finding_lr example_model" by (simp add: example_model_def)
  show ?thesis unfolding loss_func_def l w using f by (simp add: Let_def s r)
qed

lemma example_channel0: "channel0 [[[7, 4, 10], [9, 6, 12]]] = Inr [[7, 9]]"
  by (simp add: channel0_def)

lemma example_denormalize: "denormalize example_model = Inr (\<lambda>x. 2 * x + 10)"
  by (simp add: denormalize_def example_model_def)

lemma forward_without_normalization:
  "forward (m\<lparr>cfg_normalization := c\<rparr>) env md = forward m env md"
  by (simp add: forward_def forward_prediction_def nonstationary_accumulators_def
      additive_accumulator_def combine_components_def cong: if_cong option.case_cong)

lemma add_batch_regularizations_without_normalization:
  "add_batch_regularizations (m\<lparr>cfg_normalization := c\<rparr>) rv loss progress
     = add_batch_regularizations m rv loss progress"
  by (simp add: add_batch_regularizations_def delayed_terms_def glocal_terms_def Let_def
      cong: if_cong option.case_cong sum.case_cong)

lemma loss_func_without_normalization:
  "loss_func (m\<lparr>cfg_normalization := c\<rparr>) rv progress time predicted targets
     = loss_func m rv progress time predicted targets"
  by (simp add: loss_func_def weighted_loss_def add_batch_regularizations_without_normalization
      Let_def cong: if_cong option.case_cong sum.case_cong)

text \<open>
  The theorem of claim C9 at the example: the first step of the training, and the same
  step of a model built without a normalization configuration, which raises in the
  metrics block after the four calls.
\<close>

theorem training_step_order_witness:
  "train_steps_per_epoch example_model \<noteq> 0 \<and> epochs (cfg_train example_model) \<noteq> 0
   \<and> \<not> (meta_used_in_model example_model
         \<and> list_ex (\<lambda>i. i \<notin> set (id_list example_model)) [''north''])
   \<and> forward example_model example_env Train = Inr [[[7, 4, 10], [9, 6, 12]]]
   \<and> loss_func example_model example_values (Some 0) (time_input example_env)
        [[[7, 4, 10], [9, 6, 12]]] [[[7], [10]]] = Inr (5 + 3/8, 3/8)
   \<and> training_step example_model example_values example_env [[[7], [10]]] [''north''] 0 0
        \<lparr>calls = []\<rparr>
     = (\<lparr>calls = [ZeroGrad, Backward (5 + 3/8), OptimizerStep, SchedulerStep (Some 0),
                   LogDict, Log ''Loss'', Log ''RegLoss'', Log ''LR'']\<rparr>, Inr (5 + 3/8))
   \<and> training_step (example_model\<lparr>cfg_normalization := None\<rparr>) example_values example_env
        [[[7], [10]]] [''north''] 0 0 \<lparr>calls = []\<rparr>
     = (\<lparr>calls = [ZeroGrad, Backward (5 + 3/8), OptimizerStep, SchedulerStep (Some 0)]\<rparr>,
        Inl AttributeError)"
proof -
  let ?m' = "example_model\<lparr>cfg_normalization := None\<rparr>"
  have t: "time_input example_env = [[-1, 0, 1]]" by (simp add: example_env_def)
  have c: "train_steps_per_epoch example_model = 4" "epochs (cfg_train example_model) = 10"
    "\<not> finding_lr example_model" "metrics_enabled example_model"
    "meta_used_in_model example_model" "id_list example_model = [''north'', ''south'']"
    by (simp_all add: example_model_def example_config_train_def)
  have c': "train_steps_per_epoch ?m' = 4" "epochs (cfg_train ?m') = 10"
    "\<not> finding_lr ?m'" "metrics_enabled ?m'"
    "meta_used_in_model ?m'" "id_list ?m' = [''north'', ''south'']"
    by (simp_all add: c)
  have d': "denormalize ?m' = Inl AttributeError" by (simp add: denormalize_def)
  have h1: "train_steps_per_epoch example_model \<noteq> 0 \<and> epochs (cfg_train example_model) \<noteq> 0"
    by (simp add: c)
  have h2: "\<not> (meta_used_in_model example_model
         \<and> list_ex (\<lambda>i. i \<notin> set (id_list example_model)) [''north''])"
    by (simp add: c)
  have h3: "loss_func example_model example_values (Some 0) (time_input example_env)
        [[[7, 4, 10], [9, 6, 12]]] [[[7], [10]]] = Inr (5 + 3/8, 3/8)"
    unfolding t by (rule example_loss)
  obtain st' res where
    ts: "training_step example_model example_values example_env [[[7], [10]]] [''north''] 0 0
           \<lparr>calls = []\<rparr> = (st', res)"
    by fastforce
  note inst = training_step_order [where m = example_model and rv = example_values
      and env = example_env and targets = "[[[7], [10]]]" and df_name = "[''north'']"
      and current_epoch = 0 and batch_idx = 0 and st = "\<lparr>calls = []\<rparr>",
      unfolded Let_def ts prod.case]
  from inst [THEN conjunct2, rule_format, of "[[[7, 4, 10], [9, 6, 12]]]" "5 + 3/8" "3/8"]
  have "(\<exists>rest. calls st' = [ZeroGrad, Backward (5 + 3/8), OptimizerStep, SchedulerStep (Some 0)] @ rest
            \<and> filter is_optimization_action rest = [])
        \<and> res = Inr (5 + 3/8)"
    by (simp add: c example_forward_train t example_loss example_channel0 example_denormalize)
  then have order: "\<exists>rest. calls st' = [ZeroGrad, Backward (5 + 3/8), OptimizerStep, SchedulerStep (Some 0)] @ rest"
    and ret: "res = Inr (5 + 3/8)"
    by blast+
  have ev: "training_step example_model example_values example_env [[[7], [10]]] [''north''] 0 0
        \<lparr>calls = []\<rparr>
     = (\<lparr>calls = [ZeroGrad, Backward (5 + 3/8), OptimizerStep, SchedulerStep (Some 0),
                   LogDict, Log ''Loss'', Log ''RegLoss'', Log ''LR'']\<rparr>, Inr (5 + 3/8))"
    unfolding training_step_def
    by (simp add: c Let_def example_forward_train t example_loss call_def log_metrics_def
        example_channel0 example_denormalize)
  have ev': "training_step ?m' example_values example_env
        [[[7], [10]]] [''north''] 0 0 \<lparr>calls = []\<rparr>
     = (\<lparr>calls = [ZeroGrad, Backward (5 + 3/8), OptimizerStep, SchedulerStep (Some 0)]\<rparr>,
        Inl AttributeError)"
    unfolding training_step_def forward_without_normalization loss_func_without_normalization
    by (simp add: c c' Let_def example_forward_train t example_loss call_def log_metrics_def
        example_channel0 d')
  from ts ev ret order show ?thesis
    using h1 h2 h3 example_forward_train ev' by simp
qed

text \<open>
  Claim C5 as stated fails: with the end weight 2 and the start 0, the weight at time 0 is
  1/2, not 1, and the ramp ends at 1, not at the end weight.
\<close>

theorem recency_weight_counterexample:
  "(1::real) < 2 \<and> (0::real) \<le> 0
   \<and> time_based_sample_weight 2 0 0 = 1/2 \<and> time_based_sample_weight 2 0 0 \<noteq> 1
   \<and> time_based_sample_weight 2 0 1 = 1 \<and> time_based_sample_weight 2 0 1 \<noteq> 2
   \<and> get_time_based_sample_weight (cfg_train example_model) [[0, 1]] = [[[1/2], [1]]]"
  by (simp add: time_based_sample_weight_def get_time_based_sample_weight_def Let_def detach_def
      example_model_def example_config_train_def)

text \<open>
  The theorem of claim C5 at the example.
\<close>

theorem recency_weight_witness:
  "1 < newer_samples_weight (cfg_train example_model)
   \<and> newer_samples_start (cfg_train example_model) < 1
   \<and> has_shape 1 2 3 [[[0, 3, 3], [1, 4, 2]]]
   \<and> time_based_sample_weight 2 0 (-1) = 1/2
   \<and> time_based_sample_weight 2 0 1 = 1
   \<and> weighted_loss example_model [[-1, 0, 1]] [[[0, 3, 3], [1, 4, 2]]] = Inr [[[0, 3/2, 3/2], [1, 4, 2]]]"
proof -
  let ?loss = "[[[0, 3, 3], [1, 4, 2]]] :: tensor"
  let ?time = "[[-1, 0, 1]] :: matrix"
  have cw: "newer_samples_weight (cfg_train example_model) = 2"
    and cs: "newer_samples_start (cfg_train example_model) = 0"
    and nl: "n_lags example_model = 1"
    by (simp_all add: example_model_def example_config_train_def)
  have h1: "1 < newer_samples_weight (cfg_train example_model)" by (simp add: cw)
  have h2: "newer_samples_start (cfg_train example_model) < 1" by (simp add: cs)
  have h3: "has_shape 1 2 3 ?loss" by (simp add: has_shape_def)
  have h4: "length ?time = 1" by simp
  have h5: "\<forall>b<1. length (?time ! b) = n_lags example_model + 2" by (simp add: nl)
  note inst = recency_weight [OF h1 h2 h3 h4 h5, unfolded cw cs nl]
  from inst [THEN conjunct1, THEN spec, of "-1", THEN conjunct1]
  have a: "time_based_sample_weight 2 0 (-1) = 1/2" by simp
  from inst [THEN conjunct1, THEN spec, of 1, THEN conjunct2, THEN conjunct1]
  have b: "time_based_sample_weight 2 0 1 = 1" by simp
  from inst obtain wl where wl: "weighted_loss example_model ?time ?loss = Inr wl"
    and sh: "has_shape 1 2 3 wl"
    and v: "\<forall>b<1. \<forall>h<2. \<forall>q<3. wl ! b ! h ! q = ?loss ! b ! h ! q
                 * time_based_sample_weight 2 0 (?time ! b ! (1 + h))"
    by blast
  have "weighted_loss example_model ?time ?loss = Inr [[[0, 3/2, 3/2], [1, 4, 2]]]"
    by (simp add: weighted_loss_def example_model_def example_config_train_def
        get_time_based_sample_weight_def time_based_sample_weight_def Let_def detach_def
        tensor_op_def bc_def)
  with h1 h2 h3 a b show ?thesis by blast
qed

text \<open>
  Claim C6 as stated fails: with the defaults of the constructor there is none of the
  three misconfigurations, and the read of \<open>self.config_train.learning_rate\<close> raises
  AttributeError.  So does the read of \<open>self.config_regressors.regressors\<close> when the
  training configuration is supplied; with one lag and no layer list the iteration over
  \<open>self.ar_layers\<close> raises TypeError, as does with lagged regressors and no layer list
  the iteration over their layers; and a metric of a class that torchmetrics does not
  have raises KeyError.
\<close>

theorem construction_errors_counterexample:
  "\<not> multiplicative_seasonality_without_trend default_args
   \<and> \<not> unknown_seasonality_mode default_args
   \<and> \<not> multiplicative_event_without_trend default_args
   \<and> init example_torchmetrics default_args = Inl AttributeError
   \<and> init example_torchmetrics (default_args\<lparr>arg_config_train := Some example_config_train\<rparr>)
       = Inl AttributeError
   \<and> init example_torchmetrics
        (default_args\<lparr>arg_config_train := Some example_config_train,
                       arg_regressors_configured := Some False,
                       arg_n_lags := 1, arg_ar_layers := None\<rparr>) = Inl TypeError
   \<and> init example_torchmetrics
        (default_args\<lparr>arg_config_train := Some example_config_train,
                       arg_regressors_configured := Some False,
                       arg_config_lagged_regressors :=
                         Some \<lparr>lagged_regressors_present = True, lagged_layers = None\<rparr>\<rparr>)
       = Inl TypeError
   \<and> init example_torchmetrics
        (default_args\<lparr>arg_config_train := Some example_config_train,
                       arg_regressors_configured := Some False,
                       arg_metrics := Some [(''MAE'', ''MeanAbsoluteErr'')]\<rparr>) = Inl KeyError"
  by (simp add: init_def default_args_def example_torchmetrics_def example_model_def
      metrics_lookup_fails_def multiplicative_seasonality_without_trend_def
      unknown_seasonality_mode_def multiplicative_event_without_trend_def)

text \<open>
  The theorem of claim C6 at the example arguments, and at the same arguments without a
  trend.
\<close>

theorem construction_errors_witness:
  "collaborators_supplied example_torchmetrics example_args
   \<and> init example_torchmetrics example_args
       = Inr \<lparr>res_events_dims =
                Some [(''sale'', \<lparr>event_mode = ''additive'', event_indices = [0, 1]\<rparr>),
                      (''promotion'', \<lparr>event_mode = ''multiplicative'', event_indices = [2]\<rparr>)],
              n_additive_event_params = 2, n_multiplicative_event_params = 1,
              logged = [event_mode_message ''exponential'']\<rparr>
   \<and> collaborators_supplied example_torchmetrics (example_args\<lparr>arg_config_trend := None\<rparr>)
   \<and> multiplicative_event_without_trend (example_args\<lparr>arg_config_trend := None\<rparr>)
   \<and> init example_torchmetrics (example_args\<lparr>arg_config_trend := None\<rparr>) = Inl ValueError"
proof -
  let ?b = "example_args\<lparr>arg_config_trend := None\<rparr>"
  have h: "collaborators_supplied example_torchmetrics example_args"
    by (simp add: collaborators_supplied_def example_args_def metrics_lookup_fails_def
        example_torchmetrics_def)
  have h': "collaborators_supplied example_torchmetrics ?b"
    by (simp add: collaborators_supplied_def example_args_def metrics_lookup_fails_def
        example_torchmetrics_def)
  have ev: "init example_torchmetrics example_args
       = Inr \<lparr>res_events_dims =
                Some [(''sale'', \<lparr>event_mode = ''additive'', event_indices = [0, 1]\<rparr>),
                      (''promotion'', \<lparr>event_mode = ''multiplicative'', event_indices = [2]\<rparr>)],
              n_additive_event_params = 2, n_multiplicative_event_params = 1,
              logged = [event_mode_message ''exponential'']\<rparr>"
    by (simp add: init_def example_args_def example_model_def Let_def metrics_lookup_fails_def
        example_torchmetrics_def)
  have no: "\<not> (multiplicative_seasonality_without_trend example_args
              \<or> unknown_seasonality_mode example_args
              \<or> multiplicative_event_without_trend example_args)"
    using construction_errors [OF h] ev by simp
  have m: "multiplicative_event_without_trend ?b"
    by (simp add: multiplicative_event_without_trend_def example_args_def)
  from construction_errors [OF h'] m obtain e where "init example_torchmetrics ?b = Inl e" "e = ValueError"
    by blast
  then have r: "init example_torchmetrics ?b = Inl ValueError" by simp
  show ?thesis using h ev h' m r by blast
qed

end
